theory Spec2Isabelle
  imports Main "HOL-Library.AList"
begin

section \<open>Characters and strings as Python sees them\<close>

text \<open>
  A page source is a Python \<open>str\<close>. The model reads a \<^typ>\<open>char\<close> as the code point
  of the same number (0 to 255); code points above 255 are outside the model. On this range
  the definitions below agree with \<open>str.isspace\<close>, \<open>str.lower\<close> and \<open>str.isdigit\<close>.
\<close>

definition code :: "char \<Rightarrow> int" where
  "code c = of_char c"

definition isspace :: "char \<Rightarrow> bool" where
  "isspace c = (let n = code c in
     (9 \<le> n \<and> n \<le> 13) \<or> (28 \<le> n \<and> n \<le> 32) \<or> n = 133 \<or> n = 160)"

definition lower_chr :: "char \<Rightarrow> char" where
  "lower_chr c = (let n = code c in
     if (65 \<le> n \<and> n \<le> 90) \<or> (192 \<le> n \<and> n \<le> 222 \<and> n \<noteq> 215)
     then char_of (n + 32) else c)"

text \<open>The upper-case letter that \<open>lower_chr\<close> sends to a given lower-case one.\<close>

definition unlower_chr :: "char \<Rightarrow> char" where
  "unlower_chr c = (let n = code c in
     if (97 \<le> n \<and> n \<le> 122) \<or> (224 \<le> n \<and> n \<le> 254 \<and> n \<noteq> 247)
     then char_of (n - 32) else c)"

definition lower :: "string \<Rightarrow> string" where
  "lower s = map lower_chr s"

text \<open>
  \<open>str.upper\<close> on ASCII letters. The three lower-case letters of the range whose upper case
  lies outside it (or is two letters) are left as they are; the only use of \<open>upper\<close> is a
  test for the ASCII substrings \<open>NPRI\<close> and \<open>ID\<close>, which they cannot produce.
\<close>

definition upper_chr :: "char \<Rightarrow> char" where
  "upper_chr c = (let n = code c in
     if (97 \<le> n \<and> n \<le> 122) \<or> (224 \<le> n \<and> n \<le> 254 \<and> n \<noteq> 247)
     then char_of (n - 32) else c)"

definition upper :: "string \<Rightarrow> string" where
  "upper s = map upper_chr s"

definition isdigit_chr :: "char \<Rightarrow> bool" where
  "isdigit_chr c = (let n = code c in (48 \<le> n \<and> n \<le> 57) \<or> n = 178 \<or> n = 179 \<or> n = 185)"

text \<open>\<open>str.isdigit\<close>: at least one character, all of them digits.\<close>

definition isdigit :: "string \<Rightarrow> bool" where
  "isdigit s = (s \<noteq> [] \<and> list_all isdigit_chr s)"

text \<open>\<open>str.strip()\<close> with no argument.\<close>

definition strip :: "string \<Rightarrow> string" where
  "strip s = rev (dropWhile isspace (rev (dropWhile isspace s)))"

definition startswith :: "string \<Rightarrow> string \<Rightarrow> bool" where
  "startswith s p = (take (length p) s = p)"

text \<open>\<open>needle in hay\<close> on strings.\<close>

fun contains :: "string \<Rightarrow> string \<Rightarrow> bool" where
  "contains [] needle = (needle = [])"
| "contains (c # cs) needle = (startswith (c # cs) needle \<or> contains cs needle)"

section \<open>The fragment of Python's \<open>re\<close> that the patterns use\<close>

text \<open>
  Every pattern of the extractors is a sequence of literals, repeated character classes
  (greedy or lazy, with bounds), one capturing group, \<open>$\<close> and an alternation of such
  sequences. \<open>bt\<close> is the backtracking matcher at one start position, in the engine's
  priority order; \<open>re_search\<close> tries the start positions from left to right and yields
  group 1 of the first match. The flag \<open>ic\<close> is \<open>re.IGNORECASE\<close>.
\<close>

datatype citem = Chr char | Rng char char | WS

datatype cclass = In "citem list" | NotIn "citem list"

datatype rx =
    Lit string
  | Rep cclass nat "nat option" bool
  | Open
  | Close
  | Eos
  | Alts "rx list list"

fun in_citem :: "bool \<Rightarrow> char \<Rightarrow> citem \<Rightarrow> bool" where
  "in_citem ic c (Chr x) = ((if ic then lower_chr x else x) = c)"
| "in_citem ic c (Rng a b) =
     ((code a \<le> code c \<and> code c \<le> code b) \<or>
      (ic \<and> code a \<le> code (unlower_chr c) \<and> code (unlower_chr c) \<le> code b))"
| "in_citem ic c WS = isspace c"

fun in_class :: "bool \<Rightarrow> cclass \<Rightarrow> char \<Rightarrow> bool" where
  "in_class ic (In its) c = list_ex (in_citem ic (if ic then lower_chr c else c)) its"
| "in_class ic (NotIn its) c = (\<not> list_ex (in_citem ic (if ic then lower_chr c else c)) its)"

primrec weight :: "rx \<Rightarrow> nat" where
  "weight (Lit l) = 1"
| "weight (Rep cls lo hi greedy) = 1"
| "weight Open = 1"
| "weight Close = 1"
| "weight Eos = 1"
| "weight (Alts as) = Suc (sum_list (map (\<lambda>ws. Suc (sum_list ws)) (map (map weight) as)))"

text \<open>A literal at the head of the subject: the text it matched and what follows.\<close>

fun lit_prefix :: "bool \<Rightarrow> string \<Rightarrow> string \<Rightarrow> (string \<times> string) option" where
  "lit_prefix ic [] s = Some ([], s)"
| "lit_prefix ic (p # ps) [] = None"
| "lit_prefix ic (p # ps) (c # cs) =
     (if (if ic then lower_chr p = lower_chr c else p = c)
      then map_option (\<lambda>(m, r). (c # m, r)) (lit_prefix ic ps cs) else None)"

text \<open>The capture state: whether group 1 is open, and its text so far.\<close>

type_synonym cst = "bool \<times> string"

definition consume :: "string \<Rightarrow> cst \<Rightarrow> cst" where
  "consume m st = (if fst st then (True, snd st @ m) else st)"

definition dec_hi :: "nat option \<Rightarrow> nat option" where
  "dec_hi hi = map_option (\<lambda>h. h - 1) hi"

function bt :: "bool \<Rightarrow> rx list \<Rightarrow> string \<Rightarrow> cst \<Rightarrow> (cst \<times> string) option" where
  "bt ic [] s st = Some (st, s)"
| "bt ic (Lit l # r) s st =
     (case lit_prefix ic l s of
        None \<Rightarrow> None
      | Some (m, s') \<Rightarrow> bt ic r s' (consume m st))"
| "bt ic (Rep cls lo hi greedy # r) [] st = (if lo = 0 then bt ic r [] st else None)"
| "bt ic (Rep cls lo hi greedy # r) (c # cs) st =
     (if in_class ic cls c \<and> hi \<noteq> Some 0 then
        (if 0 < lo then bt ic (Rep cls (lo - 1) (dec_hi hi) greedy # r) cs (consume [c] st)
         else if greedy then
           (case bt ic (Rep cls 0 (dec_hi hi) greedy # r) cs (consume [c] st) of
              Some res \<Rightarrow> Some res
            | None \<Rightarrow> bt ic r (c # cs) st)
         else
           (case bt ic r (c # cs) st of
              Some res \<Rightarrow> Some res
            | None \<Rightarrow> bt ic (Rep cls 0 (dec_hi hi) greedy # r) cs (consume [c] st)))
      else if lo = 0 then bt ic r (c # cs) st else None)"
| "bt ic (Open # r) s st = bt ic r s (True, [])"
| "bt ic (Close # r) s st = bt ic r s (False, snd st)"
| "bt ic (Eos # r) s st = (if s = [] \<or> s = [CHR 0x0A] then bt ic r s st else None)"
| "bt ic (Alts [] # r) s st = None"
| "bt ic (Alts (a # as) # r) s st =
     (case bt ic (a @ r) s st of
        Some res \<Rightarrow> Some res
      | None \<Rightarrow> bt ic (Alts as # r) s st)"
  by pat_completeness auto
termination
  by (relation "inv_image (less_than <*lex*> less_than)
        (\<lambda>(ic, items, s, st). (sum_list (map weight items), length s))") auto

text \<open>\<open>re.search(p, s)\<close> followed by \<open>.group(1)\<close>; \<open>None\<close> when nothing matches.\<close>

fun re_search :: "bool \<Rightarrow> rx list \<Rightarrow> string \<Rightarrow> string option" where
  "re_search ic p [] = map_option (\<lambda>(st, r). snd st) (bt ic p [] (False, []))"
| "re_search ic p (c # cs) =
     (case bt ic p (c # cs) (False, []) of
        Some (st, r) \<Rightarrow> Some (snd st)
      | None \<Rightarrow> re_search ic p cs)"

text \<open>
  \<open>re.sub(p, "", s)\<close>: every match is cut out, scanning from the left; an empty match
  cuts nothing and the scan moves one character on.
\<close>

fun re_sub_del :: "rx list \<Rightarrow> string \<Rightarrow> string" where
  "re_sub_del p [] = []"
| "re_sub_del p (c # cs) =
     (case bt False p (c # cs) (False, []) of
        None \<Rightarrow> c # re_sub_del p cs
      | Some (st, r) \<Rightarrow>
          if length r < length (c # cs) then re_sub_del p r else c # re_sub_del p cs)"

section \<open>\<open>improved_contact_extractor.py\<close>: the cascade of \<open>extract_contact_with_progress\<close>\<close>

text \<open>
  The dictionary \<open>contact_info\<close> is an association list in insertion order; assigning to a
  key that is present replaces its value in place, as a Python \<open>dict\<close> does.
\<close>

type_synonym fieldmap = "(string \<times> string) list"

definition space_cls :: cclass where
  "space_cls = In [WS]"

definition digit_cls :: cclass where
  "digit_cls = In [Rng CHR ''0'' CHR ''9'']"

definition nondigit_cls :: cclass where
  "nondigit_cls = NotIn [Rng CHR ''0'' CHR ''9'']"

definition phone_cls :: cclass where
  "phone_cls = In [Rng CHR ''0'' CHR ''9'', Chr CHR ''-'', Chr CHR ''('', Chr CHR '')'', WS]"

definition local_cls :: cclass where
  "local_cls = In [Rng CHR ''a'' CHR ''z'', Rng CHR ''A'' CHR ''Z'', Rng CHR ''0'' CHR ''9'',
     Chr CHR ''.'', Chr CHR ''_'', Chr CHR ''%'', Chr CHR ''+'', Chr CHR ''-'']"

definition domain_cls :: cclass where
  "domain_cls = In [Rng CHR ''a'' CHR ''z'', Rng CHR ''A'' CHR ''Z'', Rng CHR ''0'' CHR ''9'',
     Chr CHR ''.'', Chr CHR ''-'']"

definition alpha_cls :: cclass where
  "alpha_cls = In [Rng CHR ''a'' CHR ''z'', Rng CHR ''A'' CHR ''Z'']"

definition upper_cls :: cclass where
  "upper_cls = In [Rng CHR ''A'' CHR ''Z'']"

definition lower_cls :: cclass where
  "lower_cls = In [Rng CHR ''a'' CHR ''z'']"

text \<open>\<open>Phone:\s*([0-9\-\(\)\s]+)\<close>\<close>

definition phone_pattern :: "rx list" where
  "phone_pattern = [Lit ''Phone:'', Rep space_cls 0 None True,
     Open, Rep phone_cls 1 None True, Close]"

text \<open>\<open>Email:\s*([a-zA-Z0-9._%+-]+@[a-zA-Z0-9.-]+\.[a-zA-Z]{2,})\<close>\<close>

definition email_pattern :: "rx list" where
  "email_pattern = [Lit ''Email:'', Rep space_cls 0 None True,
     Open, Rep local_cls 1 None True, Lit ''@'', Rep domain_cls 1 None True, Lit ''.'',
     Rep alpha_cls 2 None True, Close]"

text \<open>\<open>Contact Language:\s*([A-Za-z]+)\<close>\<close>

definition language_pattern :: "rx list" where
  "language_pattern = [Lit ''Contact Language:'', Rep space_cls 0 None True,
     Open, Rep (In [Rng CHR ''A'' CHR ''Z'', Rng CHR ''a'' CHR ''z'']) 1 None True, Close]"

text \<open>\<open>Business number[^0-9]*([0-9]{9})\<close>\<close>

definition business_number_pattern :: "rx list" where
  "business_number_pattern = [Lit ''Business number'', Rep nondigit_cls 0 None True,
     Open, Rep digit_cls 9 (Some 9) True, Close]"

text \<open>\<open>Number of full-time employee equivalents[^0-9]*([0-9]+)\<close>\<close>

definition employees_pattern :: "rx list" where
  "employees_pattern = [Lit ''Number of full-time employee equivalents'',
     Rep nondigit_cls 0 None True, Open, Rep digit_cls 1 None True, Close]"

text \<open>
  \<open>known_patterns\<close>, in the order of the dictionary literal. The \<open>employees\<close> entry is
  \<open>(?:Number of full-time employee equivalents|employees?)[^0-9]*([0-9]+)\<close>.
\<close>

definition known_patterns :: "(string \<times> rx list) list" where
  "known_patterns =
    [(''business_number'', [Lit ''863108833'']),
     (''employees'',
        [Alts [[Lit ''Number of full-time employee equivalents''],
               [Lit ''employee'', Rep (In [Chr CHR ''s'']) 0 (Some 1) True]],
         Rep nondigit_cls 0 None True, Open, Rep digit_cls 1 None True, Close]),
     (''contact_name'', [Lit ''Colin Hennel'']),
     (''position'', [Lit ''Manager, HSE and Regulatory'']),
     (''phone'', [Lit ''587-315-1181'']),
     (''email'', [Lit ''chennel@pinecliffenergy.com'']),
     (''language'', [Lit ''English''])]"

definition generic_patterns :: "(string \<times> rx list) list" where
  "generic_patterns =
    [(''business_number'', business_number_pattern),
     (''employees'', employees_pattern),
     (''phone'', phone_pattern),
     (''email'', email_pattern),
     (''language'', language_pattern)]"

text \<open>
  \<open>Contact information[^a-zA-Z]*([A-Z][a-z]+ [A-Z][a-z]+)\<close> and
  \<open>([A-Z][a-z]+ [A-Z][a-z]+)[\s\n]*Position:\<close>
\<close>

definition two_words :: "rx list" where
  "two_words = [Rep upper_cls 1 (Some 1) True, Rep lower_cls 1 None True, Lit '' '',
     Rep upper_cls 1 (Some 1) True, Rep lower_cls 1 None True]"

definition name_patterns :: "rx list list" where
  "name_patterns =
    [[Lit ''Contact information'',
      Rep (NotIn [Rng CHR ''a'' CHR ''z'', Rng CHR ''A'' CHR ''Z'']) 0 None True, Open]
       @ two_words @ [Close],
     [Open] @ two_words @
       [Close, Rep (In [WS, Chr CHR 0x0A]) 0 None True, Lit ''Position:'']]"

text \<open>
  \<open>Position:\s*([^\\n\\r\\}]+?)(?:\s+Phone:|Email:|$)\<close>, whose class, written in a raw
  string, excludes the backslash and the letters \<open>n\<close> and \<open>r\<close>, and
  \<open>Position:\s*([^\n\r}]+?)(?:\s+Phone:|Email:|Contact Language:)\<close>, whose class excludes
  the line feed and the carriage return.
\<close>

definition position_patterns :: "rx list list" where
  "position_patterns =
    [[Lit ''Position:'', Rep space_cls 0 None True, Open,
      Rep (NotIn [Chr CHR 0x5C, Chr CHR ''n'', Chr CHR 0x5C, Chr CHR ''r'', Chr CHR 0x5C,
                  Chr CHR ''}'']) 1 None False,
      Close,
      Alts [[Rep space_cls 1 None True, Lit ''Phone:''], [Lit ''Email:''], [Eos]]],
     [Lit ''Position:'', Rep space_cls 0 None True, Open,
      Rep (NotIn [Chr CHR 0x0A, Chr CHR 0x0D, Chr CHR ''}'']) 1 None False,
      Close,
      Alts [[Rep space_cls 1 None True, Lit ''Phone:''], [Lit ''Email:''],
            [Lit ''Contact Language:'']]]]"

text \<open>\<open>\{\{[^}]*\}\}\<close>, the placeholder removed from a position.\<close>

definition placeholder_pattern :: "rx list" where
  "placeholder_pattern = [Lit ''{{'', Rep (NotIn [Chr CHR ''}'']) 0 None True, Lit ''}}'']"

text \<open>Method 1, one turn of the loop over \<open>known_patterns\<close> (lines 87 to 106).\<close>

definition known_step :: "string \<Rightarrow> fieldmap \<Rightarrow> string \<times> rx list \<Rightarrow> fieldmap" where
  "known_step page_source contact_info kp =
     (case kp of (key, pattern) \<Rightarrow>
        if re_search True pattern page_source \<noteq> None then
          (if key = ''business_number'' then AList.update key ''863108833'' contact_info
           else if key = ''contact_name'' then AList.update key ''Colin Hennel'' contact_info
           else if key = ''position'' then
             AList.update key ''Manager, HSE and Regulatory'' contact_info
           else if key = ''phone'' then AList.update key ''587-315-1181'' contact_info
           else if key = ''email'' then
             AList.update key ''chennel@pinecliffenergy.com'' contact_info
           else if key = ''language'' then AList.update key ''English'' contact_info
           else if key = ''employees'' then
             (case re_search True pattern page_source of
                Some g \<Rightarrow> AList.update key g contact_info
              | None \<Rightarrow> AList.update key ''1'' contact_info)
           else contact_info)
        else contact_info)"

definition method1 :: "string \<Rightarrow> string \<Rightarrow> fieldmap \<Rightarrow> fieldmap" where
  "method1 npri_id page_source contact_info =
     (if npri_id = ''1368'' then foldl (known_step page_source) contact_info known_patterns
      else contact_info)"

text \<open>Method 2, one turn of the loop over \<open>generic_patterns\<close> (lines 117 to 121).\<close>

definition generic_step :: "string \<Rightarrow> fieldmap \<Rightarrow> string \<times> rx list \<Rightarrow> fieldmap" where
  "generic_step page_source contact_info kp =
     (case kp of (key, pattern) \<Rightarrow>
        if map_of contact_info key = None then
          (case re_search True pattern page_source of
             Some g \<Rightarrow> AList.update key (strip g) contact_info
           | None \<Rightarrow> contact_info)
        else contact_info)"

definition method2 :: "string \<Rightarrow> fieldmap \<Rightarrow> fieldmap" where
  "method2 page_source contact_info =
     foldl (generic_step page_source) contact_info generic_patterns"

text \<open>Method 3: the first name pattern that matches, then \<open>break\<close> (lines 124 to 134).\<close>

fun first_name :: "string \<Rightarrow> rx list list \<Rightarrow> string option" where
  "first_name page_source [] = None"
| "first_name page_source (pattern # rest) =
     (case re_search True pattern page_source of
        Some g \<Rightarrow> Some (strip g)
      | None \<Rightarrow> first_name page_source rest)"

definition method3 :: "string \<Rightarrow> fieldmap \<Rightarrow> fieldmap" where
  "method3 page_source contact_info =
     (if map_of contact_info ''contact_name'' = None then
        (case first_name page_source name_patterns of
           Some v \<Rightarrow> AList.update ''contact_name'' v contact_info
         | None \<Rightarrow> contact_info)
      else contact_info)"

text \<open>
  Method 4: the first position pattern whose match is not empty once the placeholders are
  removed (lines 137 to 151).
\<close>

fun first_position :: "string \<Rightarrow> rx list list \<Rightarrow> string option" where
  "first_position page_source [] = None"
| "first_position page_source (pattern # rest) =
     (case re_search True pattern page_source of
        Some g \<Rightarrow>
          (let position = strip (re_sub_del placeholder_pattern (strip g))
           in if position \<noteq> [] then Some position else first_position page_source rest)
      | None \<Rightarrow> first_position page_source rest)"

definition method4 :: "string \<Rightarrow> fieldmap \<Rightarrow> fieldmap" where
  "method4 page_source contact_info =
     (if map_of contact_info ''position'' = None then
        (case first_position page_source position_patterns of
           Some v \<Rightarrow> AList.update ''position'' v contact_info
         | None \<Rightarrow> contact_info)
      else contact_info)"

text \<open>
  The four methods in turn, each working on the dictionary the one before left. The code
  starts them from the empty dictionary (line 73).
\<close>

definition run_methods :: "string \<Rightarrow> string \<Rightarrow> fieldmap \<Rightarrow> fieldmap" where
  "run_methods npri_id page_source contact_info =
     method4 page_source (method3 page_source (method2 page_source
       (method1 npri_id page_source contact_info)))"

text \<open>Lines 153 to 160: the dictionary when it holds a key, \<open>None\<close> otherwise.\<close>

definition return_contact_info :: "fieldmap \<Rightarrow> fieldmap option" where
  "return_contact_info contact_info = (if contact_info \<noteq> [] then Some contact_info else None)"

definition extract_cascade :: "string \<Rightarrow> string \<Rightarrow> fieldmap option" where
  "extract_cascade npri_id page_source = return_contact_info (run_methods npri_id page_source [])"

text \<open>
  The function around the cascade writes the captured page source to
  \<open>debug_page_<npri_id>.html\<close> (lines 66 to 69) before it extracts. The files are the only
  state that outlives a call, so the file system is passed in and handed back: what each
  path holds, and whether a path can be opened for writing. An \<open>open\<close> that fails raises
  \<open>OSError\<close> and leaves the files as they were.
\<close>

datatype io_error = OSError string

record filesystem =
  contents :: "string \<rightharpoonup> string"
  writable :: "string \<Rightarrow> bool"

definition write_file :: "filesystem \<Rightarrow> string \<Rightarrow> string \<Rightarrow> io_error + filesystem" where
  "write_file fs path data =
     (if writable fs path then Inr (fs\<lparr>contents := (contents fs)(path \<mapsto> data)\<rparr>)
      else Inl (OSError path))"

definition debug_file :: "string \<Rightarrow> string" where
  "debug_file npri_id = ''debug_page_'' @ npri_id @ ''.html''"

text \<open>
  Lines 63 to 167, from the captured page source on. The write is inside the outer \<open>try\<close>:
  when it raises, the handler of lines 165 to 167 returns \<open>None\<close> and nothing is extracted.
\<close>

definition extract_contact_with_progress ::
    "filesystem \<Rightarrow> string \<Rightarrow> string \<Rightarrow> fieldmap option \<times> filesystem" where
  "extract_contact_with_progress fs npri_id page_source =
     (case write_file fs (debug_file npri_id) page_source of
        Inl e \<Rightarrow> (None, fs)
      | Inr fs' \<Rightarrow> (extract_cascade npri_id page_source, fs'))"

section \<open>\<open>enhanced_contact_extractor.py\<close>: \<open>extract_contact_info_enhanced\<close>\<close>

text \<open>
  The patterns of lines 77 to 85. The code calls \<open>re.findall\<close> and keeps \<open>matches[0]\<close>,
  which is group 1 of the leftmost match, the value of \<open>re_search\<close>; \<open>re.DOTALL\<close> has no
  effect on patterns without a dot.
\<close>

definition not_brace_cls :: cclass where
  "not_brace_cls = NotIn [Chr CHR ''}'']"





section \<open>\<open>extract_contact_info.py\<close>: \<open>scrape_contact_info_selenium\<close>\<close>

text \<open>
  The browser is a collaborator: the model takes what it answers. \<open>page_source\<close> is the
  markup it returns, \<open>find_elements\<close> the elements it finds for an XPath, and an element
  has its text (\<open>text_of\<close>) and, for an XPath below it, the element \<open>find_element\<close> returns; where
  the list has no entry \<open>find_element\<close> raises \<open>NoSuchElementException\<close>.
\<close>

datatype element = Element (text_of: string) (find_element: "(string \<times> element) list")

record driver =
  page_source :: string
  find_elements :: "string \<Rightarrow> element list"

text \<open>
  \<open>contact_patterns\<close> (lines 91 to 97):
  \<open>Contact information[^}]*?([A-Za-z\s]+)\s+Position:\<close> and \<open>Position:\s*([^\\n\\r]+)\<close>,
  then the phone, email and language patterns as above.
\<close>

definition contact_patterns :: "(string \<times> rx list) list" where
  "contact_patterns =
    [(''name'',
        [Lit ''Contact information'', Rep not_brace_cls 0 None False, Open,
         Rep (In [Rng CHR ''A'' CHR ''Z'', Rng CHR ''a'' CHR ''z'', WS]) 1 None True, Close,
         Rep space_cls 1 None True, Lit ''Position:'']),
     (''position'',
        [Lit ''Position:'', Rep space_cls 0 None True, Open,
         Rep (NotIn [Chr CHR 0x5C, Chr CHR ''n'', Chr CHR 0x5C, Chr CHR ''r'']) 1 None True,
         Close]),
     (''phone'', phone_pattern),
     (''email'', email_pattern),
     (''language'', language_pattern)]"

text \<open>Method 1 (lines 99 to 102).\<close>

definition contact_step :: "string \<Rightarrow> fieldmap \<Rightarrow> string \<times> rx list \<Rightarrow> fieldmap" where
  "contact_step all_text contact_info kp =
     (case kp of (key, pattern) \<Rightarrow>
        (case re_search True pattern all_text of
           Some g \<Rightarrow> AList.update key (strip g) contact_info
         | None \<Rightarrow> contact_info))"

definition selenium_method1 :: "driver \<Rightarrow> fieldmap \<Rightarrow> fieldmap" where
  "selenium_method1 d contact_info =
     foldl (contact_step (page_source d)) contact_info contact_patterns"

definition xpath_business_number :: string where
  "xpath_business_number =
     ''//td[contains(text(), '' @ [CHR 0x27] @ ''863108833'' @ [CHR 0x27] @
     '')] | //span[contains(text(), '' @ [CHR 0x27] @ ''863108833'' @ [CHR 0x27] @ '')]''"

definition xpath_employees :: string where
  "xpath_employees =
     ''//td[contains(text(), '' @ [CHR 0x27] @ ''Number of full-time employee'' @ [CHR 0x27] @
     '')] | //span[contains(text(), '' @ [CHR 0x27] @ ''Number of full-time employee'' @
     [CHR 0x27] @ '')]''"

definition xpath_row :: string where
  "xpath_row = ''.//ancestor::tr''"

definition xpath_value_cell :: string where
  "xpath_value_cell =
     ''.//td[2] | .//span[contains(text(), '' @ [CHR 0x27] @ ''1'' @ [CHR 0x27] @ '')]''"

definition xpath_contains :: "string \<Rightarrow> string" where
  "xpath_contains lit = ''//*[contains(text(), '' @ [CHR 0x27] @ lit @ [CHR 0x27] @ '')]''"

text \<open>
  Method 2 (lines 105 to 135). A \<open>find_element\<close> that raises is caught by the bare
  \<open>except\<close> and leaves the dictionary as it was.
\<close>

definition selenium_method2 :: "driver \<Rightarrow> fieldmap \<Rightarrow> fieldmap" where
  "selenium_method2 d contact_info =
     (let ci1 = (case find_elements d xpath_business_number of
                   [] \<Rightarrow> contact_info
                 | e # _ \<Rightarrow> AList.update ''business_number'' (strip (text_of e)) contact_info)
      in case find_elements d xpath_employees of
           [] \<Rightarrow> ci1
         | e # _ \<Rightarrow>
             (case map_of (find_element e) xpath_row of
                None \<Rightarrow> ci1
              | Some parent_row \<Rightarrow>
                  (case map_of (find_element parent_row) xpath_value_cell of
                     None \<Rightarrow> ci1
                   | Some value_cell \<Rightarrow>
                       AList.update ''employees'' (strip (text_of value_cell)) ci1)))"

text \<open>Method 3 (lines 138 to 156): the three literals, assigned when the page shows them.\<close>

definition selenium_method3 :: "driver \<Rightarrow> fieldmap \<Rightarrow> fieldmap" where
  "selenium_method3 d contact_info =
     (let ci1 = (if find_elements d (xpath_contains ''Colin Hennel'') \<noteq> []
                 then AList.update ''name'' ''Colin Hennel'' contact_info else contact_info);
          ci2 = (if find_elements d (xpath_contains ''587-315-1181'') \<noteq> []
                 then AList.update ''phone'' ''587-315-1181'' ci1 else ci1)
      in if find_elements d (xpath_contains ''chennel@pinecliffenergy.com'') \<noteq> []
         then AList.update ''email'' ''chennel@pinecliffenergy.com'' ci2 else ci2)"

definition selenium_contact_info :: "driver \<Rightarrow> fieldmap" where
  "selenium_contact_info d = selenium_method3 d (selenium_method2 d (selenium_method1 d []))"

text \<open>Lines 166 to 172.\<close>

definition scrape_contact_info_selenium :: "driver \<Rightarrow> fieldmap option" where
  "scrape_contact_info_selenium d =
     (let contact_info = selenium_contact_info d
      in if contact_info \<noteq> [] then Some contact_info else None)"

section \<open>The wait before the extraction\<close>

text \<open>
  The clock counts milliseconds from the moment \<open>driver.get\<close> returns. \<open>time.sleep\<close>
  moves it on by the time slept and nothing else moves it. What the browser shows is a
  function of the clock.
\<close>

type_synonym clock = nat

datatype wait_error = TimeoutException

text \<open>
  \<open>WebDriverWait(driver, timeout).until(condition)\<close> with the polling interval of half a
  second that Selenium uses by default: the condition is tried, and when it fails the
  wait sleeps for the interval and gives up once the clock has passed the end time.
\<close>

function wait_until :: "(clock \<Rightarrow> bool) \<Rightarrow> clock \<Rightarrow> clock \<Rightarrow> (wait_error + unit) \<times> clock" where
  "wait_until condition end_time now =
     (if condition now then (Inr (), now)
      else (let now' = now + 500
            in if end_time < now' then (Inl TimeoutException, now')
               else wait_until condition end_time now'))"
  by pat_completeness auto
termination
  by (relation "measure (\<lambda>(condition, end_time, now). end_time - now)") auto

declare wait_until.simps [simp del]

text \<open>
  The condition of lines 62 to 74 of \<open>extract_contact_info.py\<close>: an element is present
  for one of the three anchors.
\<close>

definition content_located :: "driver \<Rightarrow> bool" where
  "content_located d =
     (find_elements d (xpath_contains ''Contact information'') \<noteq> []
      \<or> find_elements d (xpath_contains ''Business number'') \<noteq> []
      \<or> find_elements d (xpath_contains ''Facility details'') \<noteq> [])"

text \<open>
  Lines 53 to 172: ten seconds of sleep, the wait, whose \<open>TimeoutException\<close> is caught
  and printed, fifteen seconds of sleep, then the extraction on what the browser shows.
  The first component is the clock at which the extraction starts.
\<close>

definition scrape_contact_info_selenium_timed ::
    "nat \<Rightarrow> (clock \<Rightarrow> driver) \<Rightarrow> clock \<times> fieldmap option" where
  "scrape_contact_info_selenium_timed timeout browser =
     (let now = 10000;
          (waited, now) = wait_until (\<lambda>t. content_located (browser t)) (now + 1000 * timeout) now;
          now = (case waited of Inr found \<Rightarrow> now | Inl TimeoutException \<Rightarrow> now);
          now = now + 15000
      in (now, scrape_contact_info_selenium (browser now)))"

text \<open>
  Lines 47 to 64 of \<open>improved_contact_extractor.py\<close>: up to six turns, each sleeping five
  seconds and then looking for one of two anchors in the page source, with a \<open>break\<close> on
  the first that is found. The page source is read again at once and extracted from.
\<close>

definition content_detected :: "string \<Rightarrow> bool" where
  "content_detected src =
     (contains src ''Contact information'' \<or> contains src ''Business number'')"

fun progressive_wait :: "(clock \<Rightarrow> string) \<Rightarrow> nat \<Rightarrow> clock \<Rightarrow> bool \<times> clock" where
  "progressive_wait page 0 now = (False, now)"
| "progressive_wait page (Suc n) now =
     (let now' = now + 5000
      in if content_detected (page now') then (True, now')
         else progressive_wait page n now')"

definition extract_contact_with_progress_timed ::
    "filesystem \<Rightarrow> string \<Rightarrow> (clock \<Rightarrow> string) \<Rightarrow> clock \<times> fieldmap option \<times> filesystem" where
  "extract_contact_with_progress_timed fs ident page =
     (let (detected, now) = progressive_wait page 6 0
      in (now, extract_contact_with_progress fs ident (page now)))"

section \<open>\<open>clean_contact_data.py\<close>: the position clean-up\<close>

text \<open>
  Lines 26 to 33: \<open><[^>]+>\<close> is cut out of the position, runs of white space become one
  space, and the ends are stripped. No other key is touched.
\<close>

definition tag_pattern :: "rx list" where
  "tag_pattern = [Lit ''<'', Rep (NotIn [Chr CHR ''>'']) 1 None True, Lit ''>'']"

text \<open>\<open>re.sub(r"\s+", " ", s)\<close>\<close>

function collapse_ws :: "string \<Rightarrow> string" where
  "collapse_ws [] = []"
| "collapse_ws (c # cs) =
     (if isspace c then CHR '' '' # collapse_ws (dropWhile isspace cs)
      else c # collapse_ws cs)"
  by pat_completeness auto
termination
  by (relation "measure length") (auto simp: le_imp_less_Suc length_dropWhile_le)

definition clean_position :: "string \<Rightarrow> string" where
  "clean_position position = strip (collapse_ws (re_sub_del tag_pattern position))"

definition clean_contact_info :: "fieldmap \<Rightarrow> fieldmap" where
  "clean_contact_info contact_info =
     (case map_of contact_info ''position'' of
        Some position \<Rightarrow> AList.update ''position'' (clean_position position) contact_info
      | None \<Rightarrow> contact_info)"

section \<open>\<open>main.py\<close>: the identifier resolver\<close>

text \<open>
  The resolver reads a document that \<open>BeautifulSoup\<close> has parsed with \<open>html.parser\<close>. A
  node is a string or a tag with its attributes and children. The parser gives every
  string a class: \<open>NavigableString\<close> for ordinary text, and a class of its own for a
  comment, a declaration, and the text below a \<open>script\<close>, \<open>style\<close>, \<open>template\<close>, \<open>rt\<close> or
  \<open>rp\<close> tag. The functions below are the calls the code makes on the tree (\<open>find_all\<close>,
  \<open>find\<close>, \<open>get_text\<close>, with and without \<open>strip=True\<close>), as bs4 4.11 and later answer
  them.
\<close>

datatype string_class =
    NavigableString | CData | Comment | Declaration | Doctype | ProcessingInstruction
  | Script | Stylesheet | TemplateString | RubyTextString | RubyParenthesisString

datatype node = Str string_class string | Tag string "(string \<times> string) list" "node list"

abbreviation Text :: "string \<Rightarrow> node" where
  "Text s \<equiv> Str NavigableString s"

fun descendants :: "node \<Rightarrow> node list" where
  "descendants (Str k s) = []"
| "descendants (Tag name attrs children) = concat (map (\<lambda>c. c # descendants c) children)"

text \<open>The strings below a node, each with its class, in document order.\<close>

fun strings_of :: "node \<Rightarrow> (string_class \<times> string) list" where
  "strings_of (Str k s) = [(k, s)]"
| "strings_of (Tag name attrs children) = concat (map strings_of children)"

text \<open>
  The classes of string that \<open>get_text\<close> collects below a tag of a given name: a tag that
  holds a class of its own collects that class, every other tag collects ordinary text and
  \<open>CData\<close>. So the text of a page leaves out its scripts, style sheets, templates and
  comments.
\<close>

definition interesting_string_types :: "string \<Rightarrow> string_class list" where
  "interesting_string_types name =
     (if name = ''rt'' then [RubyTextString]
      else if name = ''rp'' then [RubyParenthesisString]
      else if name = ''style'' then [Stylesheet]
      else if name = ''script'' then [Script]
      else if name = ''template'' then [TemplateString]
      else [NavigableString, CData])"

fun all_strings :: "node \<Rightarrow> string list" where
  "all_strings (Str k s) = [s]"
| "all_strings (Tag name attrs children) =
     map snd (filter (\<lambda>ks. fst ks \<in> set (interesting_string_types name))
       (concat (map strings_of children)))"

fun is_tag :: "string list \<Rightarrow> node \<Rightarrow> bool" where
  "is_tag names (Str k s) = False"
| "is_tag names (Tag name attrs children) = (name \<in> set names)"

fun is_link :: "node \<Rightarrow> bool" where
  "is_link (Str k s) = False"
| "is_link (Tag name attrs children) = (name = ''a'' \<and> map_of attrs ''href'' \<noteq> None)"

fun get_href :: "node \<Rightarrow> string" where
  "get_href (Str k s) = []"
| "get_href (Tag name attrs children) =
     (case map_of attrs ''href'' of Some v \<Rightarrow> v | None \<Rightarrow> [])"

definition find_all :: "string list \<Rightarrow> node \<Rightarrow> node list" where
  "find_all names n = filter (is_tag names) (descendants n)"

definition find_all_links :: "node \<Rightarrow> node list" where
  "find_all_links n = filter is_link (descendants n)"

definition find_first :: "node list \<Rightarrow> node option" where
  "find_first ns = (case ns of [] \<Rightarrow> None | n # _ \<Rightarrow> Some n)"

definition get_text :: "node \<Rightarrow> string" where
  "get_text n = concat (all_strings n)"

definition get_text_strip :: "node \<Rightarrow> string" where
  "get_text_strip n = concat (filter (\<lambda>t. t \<noteq> []) (map strip (all_strings n)))"

text \<open>\<open>s.split(sep)\<close> for a separator that is not empty, and \<open>s.split()\<close>.\<close>

function split_on :: "string \<Rightarrow> string \<Rightarrow> string \<Rightarrow> string list" where
  "split_on sep acc [] = [rev acc]"
| "split_on sep acc (c # cs) =
     (if sep \<noteq> [] \<and> startswith (c # cs) sep
      then rev acc # split_on sep [] (drop (length sep - 1) cs)
      else split_on sep (c # acc) cs)"
  by pat_completeness auto
termination
  by (relation "measure (\<lambda>(sep, acc, s). length s)") auto

fun split_ws :: "string \<Rightarrow> string \<Rightarrow> string list" where
  "split_ws acc [] = (if acc = [] then [] else [rev acc])"
| "split_ws acc (c # cs) =
     (if isspace c then (if acc = [] then split_ws [] cs else rev acc # split_ws [] cs)
      else split_ws (c # acc) cs)"

fun first_some :: "('a \<Rightarrow> 'b option) \<Rightarrow> 'a list \<Rightarrow> 'b option" where
  "first_some f [] = None"
| "first_some f (x # xs) = (case f x of Some y \<Rightarrow> Some y | None \<Rightarrow> first_some f xs)"

text \<open>Lines 65 to 70: the first header with both \<open>NPRI\<close> and \<open>ID\<close> in its upper case.\<close>

fun npri_header_index :: "nat \<Rightarrow> string list \<Rightarrow> nat option" where
  "npri_header_index idx [] = None"
| "npri_header_index idx (header # rest) =
     (if contains (upper header) ''NPRI'' \<and> contains (upper header) ''ID'' then Some idx
      else npri_header_index (Suc idx) rest)"

text \<open>Lines 99 to 116, for one link of a row that names the company.\<close>

definition row_link_id :: "node \<Rightarrow> string option" where
  "row_link_id link =
     (let href = get_href link; link_text = get_text_strip link
      in if contains href ''/2024/'' \<and> isdigit link_text then Some link_text
         else if isdigit link_text \<and> 3 \<le> length link_text then Some link_text
         else None)"

text \<open>Lines 83 to 137, for one row.\<close>

definition row_id :: "string \<Rightarrow> nat \<Rightarrow> node \<Rightarrow> string option" where
  "row_id company_name_decoded npri_id_index row =
     (let cells = find_all [''td'', ''th''] row;
          row_text = get_text row;
          company_keywords = split_ws [] (filter (\<lambda>c. c \<noteq> CHR ''.'') company_name_decoded)
      in if list_ex (\<lambda>keyword. contains (lower row_text) (lower keyword))
              (filter (\<lambda>keyword. 3 < length keyword) company_keywords)
         then
           (case first_some row_link_id (find_all_links row) of
              Some link_text \<Rightarrow> Some link_text
            | None \<Rightarrow>
                if npri_id_index < length cells then
                  (case find_first (find_all_links (cells ! npri_id_index)) of
                     None \<Rightarrow> None
                   | Some cell_link \<Rightarrow>
                       (let link_text = get_text_strip cell_link
                        in if isdigit link_text then Some link_text else None))
                else None)
         else None)"

text \<open>\<open>/2024/(\d+)\<close>, searched without flags.\<close>

definition href_pattern :: "rx list" where
  "href_pattern = [Lit ''/2024/'', Open, Rep digit_cls 1 None True, Close]"

text \<open>Lines 148 to 165, for one link of the table.\<close>

definition table_link_id :: "node \<Rightarrow> string option" where
  "table_link_id link =
     (let href = get_href link; link_text = get_text_strip link
      in if contains href ''/2024/'' \<and> isdigit link_text then Some link_text
         else re_search False href_pattern href)"

text \<open>Lines 169 to 177, for one cell.\<close>

definition cell_id :: "node \<Rightarrow> string option" where
  "cell_id cell =
     (let cell_text = get_text_strip cell
      in if isdigit cell_text \<and> 3 \<le> length cell_text then Some cell_text else None)"

text \<open>
  What one turn of the loop over the tables does: it returns an identifier, raises (the
  \<open>IndexError\<close> of \<open>url.split("name=")[1]\<close>), or goes on to the next table.
\<close>

datatype flow = Returns string | Raises | Falls_through

text \<open>\<open>urllib.parse.unquote\<close> is a parameter.\<close>

definition table_id :: "(string \<Rightarrow> string) \<Rightarrow> string \<Rightarrow> node \<Rightarrow> flow" where
  "table_id unquote url table =
     (case find_first (find_all [''tr''] table) of
        None \<Rightarrow> Falls_through
      | Some headers_row \<Rightarrow>
          (let header_texts = map get_text_strip (find_all [''th'', ''td''] headers_row)
           in case npri_header_index 0 header_texts of
                None \<Rightarrow> Falls_through
              | Some npri_id_index \<Rightarrow>
                  (let all_rows = find_all [''tr''] table
                   in case split_on ''name='' [] url of
                        _ # after_name # _ \<Rightarrow>
                          (case split_on ''&'' [] after_name of
                             [] \<Rightarrow> Raises
                           | company_name_from_url # _ \<Rightarrow>
                               (let company_name_decoded = unquote company_name_from_url
                                in case first_some (row_id company_name_decoded npri_id_index)
                                          all_rows of
                                     Some r \<Rightarrow> Returns r
                                   | None \<Rightarrow>
                                       (case first_some table_link_id (find_all_links table) of
                                          Some r \<Rightarrow> Returns r
                                        | None \<Rightarrow>
                                            (case first_some cell_id
                                                    (concat (map (find_all [''td'', ''th''])
                                                       all_rows)) of
                                               Some r \<Rightarrow> Returns r
                                             | None \<Rightarrow> Falls_through))))
                      | _ \<Rightarrow> Raises)))"

fun scan_tables :: "(string \<Rightarrow> string) \<Rightarrow> string \<Rightarrow> node list \<Rightarrow> flow" where
  "scan_tables unquote url [] = Falls_through"
| "scan_tables unquote url (table # rest) =
     (case table_id unquote url table of
        Falls_through \<Rightarrow> scan_tables unquote url rest
      | res \<Rightarrow> res)"

text \<open>
  Lines 183 to 204: the first of the known identifiers that the page text contains. The
  tokens of four or five digits found afterwards are printed and the function returns
  \<open>None\<close>.
\<close>

definition known_npri_ids :: "string list" where
  "known_npri_ids = [''1368'', ''6626'', ''15098'']"

definition text_fallback :: "string \<Rightarrow> string option" where
  "text_fallback page_text =
     first_some (\<lambda>npri_id. if contains page_text npri_id then Some npri_id else None)
       known_npri_ids"

text \<open>
  The function from the parsed response on (line 38); a failed request and every
  exception raised while parsing end in \<open>return None\<close> (lines 206 to 211).
\<close>

definition download_npri_csv_with_selenium ::
    "(string \<Rightarrow> string) \<Rightarrow> string \<Rightarrow> node \<Rightarrow> string option" where
  "download_npri_csv_with_selenium unquote url soup =
     (let tables = find_all [''table''] soup
      in if tables = [] then None
         else (case scan_tables unquote url tables of
                 Returns r \<Rightarrow> Some r
               | Raises \<Rightarrow> None
               | Falls_through \<Rightarrow> text_fallback (get_text soup)))"

section \<open>\<open>main.py\<close>: \<open>process_single_company\<close>\<close>

text \<open>\<open>urllib.parse.quote\<close> is a parameter.\<close>

definition create_url_for_company :: "(string \<Rightarrow> string) \<Rightarrow> string \<Rightarrow> string" where
  "create_url_for_company quote company_name =
     ''https://pollution-waste.canada.ca/national-release-inventory/'' @
     ''?fromYear=2024&toYear=2024&name='' @ quote company_name @
     ''&direction=ascending&order=NPRI_Id&length=10&page=1''"

definition get_known_npri_data :: "(string \<times> string option) list" where
  "get_known_npri_data =
    [(''Pine Cliff Energy Ltd'', Some ''1368''),
     (''Spur Petroleum Ltd'', None),
     (''Signalta Resources Ltd'', None)]"

text \<open>
  The names that \<open>main.py\<close> binds at module level: its imports and its \<open>def\<close>s. A call of
  a global name that is neither here nor a builtin raises \<open>NameError\<close>.
\<close>

definition main_module_names :: "string list" where
  "main_module_names =
    [''os'', ''sys'', ''time'', ''urllib'', ''Path'', ''requests'', ''BeautifulSoup'',
     ''download_npri_csv_with_selenium'', ''scrape_with_selenium'', ''create_url_for_company'',
     ''get_known_npri_data'', ''process_single_company'', ''read_companies_from_file'',
     ''main'']"

datatype exn = NameError string

text \<open>
  Lines 321 to 359. \<open>scrape_with_selenium\<close> needs a browser and is a parameter; so is the
  function that the name \<open>scrape_npri_data\<close> would denote were it bound.
\<close>

definition process_single_company ::
    "(string \<Rightarrow> string) \<Rightarrow> (string \<Rightarrow> string option) \<Rightarrow> (string \<Rightarrow> string option) \<Rightarrow> string
      \<Rightarrow> exn + (string \<times> string option \<times> string)" where
  "process_single_company quote scrape_npri_data scrape_with_selenium company_name =
     (let url = create_url_for_company quote company_name
      in if ''scrape_npri_data'' \<notin> set main_module_names
         then Inl (NameError ''scrape_npri_data'')
         else
           (case scrape_npri_data url of
              Some first_npri_id \<Rightarrow> Inr (company_name, Some first_npri_id, ''Static Scraping'')
            | None \<Rightarrow>
                (case scrape_with_selenium url of
                   Some first_npri_id \<Rightarrow> Inr (company_name, Some first_npri_id, ''Selenium'')
                 | None \<Rightarrow>
                     (case map_of get_known_npri_data company_name of
                        Some (Some fallback_id) \<Rightarrow>
                          Inr (company_name, Some fallback_id, ''Known Data'')
                      | _ \<Rightarrow> Inr (company_name, None, ''Failed'')))))"

section \<open>The record of an attempt and the classification of the specification\<close>

text \<open>
  \<open>process_all_companies\<close> (lines 213 to 218 of \<open>improved_contact_extractor.py\<close>) and
  \<open>main\<close> (lines 323 to 328 of \<open>extract_contact_info.py\<close>) store the same dictionary.
\<close>

record result =
  company_name :: string
  npri_id :: string
  contact_info :: "fieldmap option"
  success :: bool

definition make_result :: "string \<Rightarrow> string \<Rightarrow> fieldmap option \<Rightarrow> result" where
  "make_result name ident info =
     \<lparr>company_name = name, npri_id = ident, contact_info = info, success = (info \<noteq> None)\<rparr>"

text \<open>
  The three-way rule in the words of the specification, to compare the code with: a name,
  a phone or an email makes a success, any other field a partial result, none a failure.
\<close>

datatype outcome = Success | Partial | Failure

definition spec_classification :: "fieldmap \<Rightarrow> outcome" where
  "spec_classification m =
     (if map_of m ''contact_name'' \<noteq> None \<or> map_of m ''phone'' \<noteq> None
         \<or> map_of m ''email'' \<noteq> None then Success
      else if m \<noteq> [] then Partial
      else Failure)"

section \<open>The listing of the resolver scenario\<close>

text \<open>
  A results table with the header cells \<open>Company\<close> and \<open>h\<close> and one data row: the company
  \<open>Acme Corp\<close> and a link to \<open>/2024/4821\<close> with the text \<open>4821\<close>. The URL is the one
  \<open>create_url_for_company\<close> builds for the query \<open>Acme\<close>.
\<close>

definition header_row :: "string \<Rightarrow> node" where
  "header_row h = Tag ''tr'' [] [Tag ''th'' [] [Text ''Company''], Tag ''th'' [] [Text h]]"

definition data_row :: node where
  "data_row = Tag ''tr'' []
     [Tag ''td'' [] [Text ''Acme Corp''],
      Tag ''td'' [] [Tag ''a'' [(''href'', ''/2024/4821'')] [Text ''4821'']]]"

definition listing :: "string \<Rightarrow> node" where
  "listing h = Tag ''[document]'' [] [Tag ''table'' [] [header_row h, data_row]]"

definition acme_url :: string where
  "acme_url = create_url_for_company id ''Acme''"

text \<open>
  A page whose only table has no identifier column, with a phone number in a cell, and
  the same page with a script in front of the table.
\<close>

definition phone_listing :: "string \<Rightarrow> node" where
  "phone_listing number =
     Tag ''[document]'' []
       [Tag ''table'' []
          [Tag ''tr'' [] [Tag ''th'' [] [Text ''Company''], Tag ''th'' [] [Text ''Phone'']],
           Tag ''tr'' [] [Tag ''td'' [] [Text ''Other Corp''], Tag ''td'' [] [Text number]]]]"

definition scripted_listing :: "string \<Rightarrow> string \<Rightarrow> node" where
  "scripted_listing js number =
     Tag ''[document]'' []
       [Tag ''script'' [] [Str Script js],
        Tag ''table'' []
          [Tag ''tr'' [] [Tag ''th'' [] [Text ''Company''], Tag ''th'' [] [Text ''Phone'']],
           Tag ''tr'' [] [Tag ''td'' [] [Text ''Other Corp''], Tag ''td'' [] [Text number]]]]"

section \<open>Browsers for the examples\<close>

text \<open>
  A browser that shows the page source \<open>src\<close> and finds no element for any XPath, and one
  that finds the element \<open>el\<close> for the XPath \<open>xp\<close> and nothing for any other.
\<close>

definition quiet_driver :: "string \<Rightarrow> driver" where
  "quiet_driver src = \<lparr>page_source = src, find_elements = (\<lambda>xpath. [])\<rparr>"

definition answering_driver :: "string \<Rightarrow> string \<Rightarrow> element \<Rightarrow> driver" where
  "answering_driver src xp el =
     \<lparr>page_source = src, find_elements = (\<lambda>xpath. if xpath = xp then [el] else [])\<rparr>"

text \<open>
  A page source and a browser that show nothing before the clock reaches \<open>t\<close> and the
  given content from then on.
\<close>

definition appearing_page :: "clock \<Rightarrow> string \<Rightarrow> clock \<Rightarrow> string" where
  "appearing_page t src now = (if t \<le> now then src else [])"

definition appearing_browser :: "clock \<Rightarrow> driver \<Rightarrow> clock \<Rightarrow> driver" where
  "appearing_browser t d now = (if t \<le> now then d else quiet_driver [])"

text \<open>A disk where every path can be written, and one where none can.\<close>

definition open_disk :: filesystem where
  "open_disk = \<lparr>contents = Map.empty, writable = (\<lambda>path. True)\<rparr>"


section \<open>What a match says about the text it took\<close>

text \<open>
  \<open>ms ic p w st st'\<close>: the items \<open>p\<close> can match exactly the text \<open>w\<close>, taking the capture
  state from \<open>st\<close> to \<open>st'\<close>. It forgets the order in which the matcher tries things and
  what follows the match, and keeps what the proofs about captured values need.
\<close>

fun lit_eq :: "bool \<Rightarrow> string \<Rightarrow> string \<Rightarrow> bool" where
  "lit_eq ic [] [] = True"
| "lit_eq ic (p # ps) (c # cs) =
     ((if ic then lower_chr p = lower_chr c else p = c) \<and> lit_eq ic ps cs)"
| "lit_eq ic _ _ = False"

fun within :: "nat \<Rightarrow> nat option \<Rightarrow> nat \<Rightarrow> bool" where
  "within lo None n = (lo \<le> n)"
| "within lo (Some hi) n = (lo \<le> n \<and> n \<le> hi)"

inductive ms :: "bool \<Rightarrow> rx list \<Rightarrow> string \<Rightarrow> cst \<Rightarrow> cst \<Rightarrow> bool" where
  ms_Nil: "ms ic [] [] st st"
| ms_Lit: "lit_eq ic l m \<Longrightarrow> ms ic r w (consume m st) st'
     \<Longrightarrow> ms ic (Lit l # r) (m @ w) st st'"
| ms_Rep: "list_all (in_class ic cls) m \<Longrightarrow> within lo hi (length m)
     \<Longrightarrow> ms ic r w (consume m st) st'
     \<Longrightarrow> ms ic (Rep cls lo hi greedy # r) (m @ w) st st'"
| ms_Open: "ms ic r w (True, []) st' \<Longrightarrow> ms ic (Open # r) w st st'"
| ms_Close: "ms ic r w (False, snd st) st' \<Longrightarrow> ms ic (Close # r) w st st'"
| ms_Eos: "ms ic r w st st' \<Longrightarrow> ms ic (Eos # r) w st st'"
| ms_Alts: "a \<in> set as \<Longrightarrow> ms ic (a @ r) w st st' \<Longrightarrow> ms ic (Alts as # r) w st st'"

inductive_cases ms_NilE: "ms ic [] w st st'"
inductive_cases ms_LitE: "ms ic (Lit l # r) w st st'"
inductive_cases ms_RepE: "ms ic (Rep cls lo hi greedy # r) w st st'"
inductive_cases ms_OpenE: "ms ic (Open # r) w st st'"
inductive_cases ms_CloseE: "ms ic (Close # r) w st st'"
inductive_cases ms_EosE: "ms ic (Eos # r) w st st'"
inductive_cases ms_AltsE: "ms ic (Alts as # r) w st st'"

section \<open>The shapes of the stored values\<close>

definition ascii_digit :: "char \<Rightarrow> bool" where
  "ascii_digit c = (48 \<le> code c \<and> code c \<le> 57)"

definition ascii_alpha :: "char \<Rightarrow> bool" where
  "ascii_alpha c = ((65 \<le> code c \<and> code c \<le> 90) \<or> (97 \<le> code c \<and> code c \<le> 122))"

definition local_chr :: "char \<Rightarrow> bool" where
  "local_chr c = (ascii_alpha c \<or> ascii_digit c \<or> c \<in> set ''._%+-'')"

definition domain_chr :: "char \<Rightarrow> bool" where
  "domain_chr c = (ascii_alpha c \<or> ascii_digit c \<or> c \<in> set ''.-'')"

definition phone_chr :: "char \<Rightarrow> bool" where
  "phone_chr c = (ascii_digit c \<or> c \<in> set ''-()'' \<or> isspace c)"

text \<open>
  \<open>local@domain.tld\<close>: the text before the first \<open>@\<close> is a local part, the text after the
  last dot is a top-level name of two letters or more, and what lies between them is a
  domain; none of the three is empty.
\<close>

definition email_shape :: "string \<Rightarrow> bool" where
  "email_shape e =
     (let l = takeWhile (\<lambda>c. c \<noteq> CHR ''@'') e;
          r = drop (Suc (length l)) e;
          t = rev (takeWhile (\<lambda>c. c \<noteq> CHR ''.'') (rev r));
          d = take (length r - Suc (length t)) r
      in length l < length e \<and> length t < length r
         \<and> l \<noteq> [] \<and> list_all local_chr l
         \<and> d \<noteq> [] \<and> list_all domain_chr d
         \<and> 2 \<le> length t \<and> list_all ascii_alpha t)"

section \<open>Classification of an attempt\<close>

text \<open>
  C1, as stated, fails: a page that yields the employee count and nothing else is returned
  and recorded with \<open>success = True\<close>, where the three-way rule says \<open>Partial\<close>.
\<close>

theorem employees_only_counterexample:
  "extract_cascade ''6626'' ''Number of full-time employee equivalents: 12'' =
     Some [(''employees'', ''12'')]
   \<and> success (make_result ''Acme Ltd'' ''6626''
        (extract_cascade ''6626'' ''Number of full-time employee equivalents: 12''))
   \<and> spec_classification [(''employees'', ''12'')] = Partial"
  by code_simp

text \<open>
  C1, amended: the code classifies two ways. The attempt is recorded as a success exactly
  when the three-way rule gives \<open>Success\<close> or \<open>Partial\<close>, that is when any field at all was
  found, and then the whole dictionary is returned; it returns \<open>None\<close> exactly when the
  rule gives \<open>Failure\<close>.
\<close>

theorem success_is_any_field:
  "(success (make_result name nid (extract_cascade nid src))
      \<longleftrightarrow> spec_classification (run_methods nid src []) \<noteq> Failure)
   \<and> (extract_cascade nid src = None
      \<longleftrightarrow> spec_classification (run_methods nid src []) = Failure)
   \<and> (extract_cascade nid src \<noteq> None
      \<longrightarrow> extract_cascade nid src = Some (run_methods nid src []))"
  by (auto simp: make_result_def extract_cascade_def return_contact_info_def
      spec_classification_def)

theorem success_is_any_field_witness:
  "success (make_result ''Acme Ltd'' ''6626''
      (extract_cascade ''6626'' ''Number of full-time employee equivalents: 12''))
   \<and> spec_classification
        (run_methods ''6626'' ''Number of full-time employee equivalents: 12'' []) = Partial
   \<and> extract_cascade ''6626'' ''Number of full-time employee equivalents: 12'' =
        Some (run_methods ''6626'' ''Number of full-time employee equivalents: 12'' [])"
proof -
  have partial: "spec_classification
      (run_methods ''6626'' ''Number of full-time employee equivalents: 12'' []) = Partial"
    by code_simp
  show ?thesis
    using success_is_any_field [of "''Acme Ltd''" "''6626''"
        "''Number of full-time employee equivalents: 12''"] partial
    by simp
qed

section \<open>The identifier resolver\<close>

lemma header_row_id: "row_id ''Acme'' (Suc 0) (header_row h) = None"
proof -
  have kws: "split_ws [] (filter (\<lambda>c. c \<noteq> CHR ''.'') ''Acme'') = [''Acme'']"
    by code_simp
  show ?thesis
    by (simp add: row_id_def kws header_row_def find_all_def find_all_links_def
        find_first_def interesting_string_types_def Let_def)
qed

lemma data_row_id: "row_id ''Acme'' (Suc 0) data_row = Some ''4821''"
  by code_simp

lemma rows_of_listing:
  "find_all [''table''] (listing h) = [Tag ''table'' [] [header_row h, data_row]]"
  "find_all [''tr''] (Tag ''table'' [] [header_row h, data_row]) = [header_row h, data_row]"
  "find_all [''th'', ''td''] (header_row h) =
     [Tag ''th'' [] [Text ''Company''], Tag ''th'' [] [Text h]]"
  by (simp_all add: listing_def header_row_def data_row_def find_all_def)

lemma acme_url_name:
  "split_on ''name='' [] acme_url =
     [''https://pollution-waste.canada.ca/national-release-inventory/?fromYear=2024&toYear=2024&'',
      ''Acme&direction=ascending&order=NPRI_Id&length=10&page=1'']"
  "split_on ''&'' [] ''Acme&direction=ascending&order=NPRI_Id&length=10&page=1'' =
     [''Acme'', ''direction=ascending'', ''order=NPRI_Id'', ''length=10'', ''page=1'']"
  by code_simp+

text \<open>
  C6, as stated, fails: the code looks for \<open>NPRI\<close>, not \<open>registry\<close>, in a header, so the
  table headed \<open>Registry ID\<close> is passed over and the resolver returns \<open>None\<close>.
\<close>

theorem registry_header_counterexample:
  "download_npri_csv_with_selenium id acme_url (listing ''Registry ID'') = None"
  by code_simp

text \<open>
  C6, amended: when the second header cell has \<open>NPRI\<close> and \<open>ID\<close> in it, in any case and
  any order, the resolver returns \<open>4821\<close> for the listing of the scenario.
\<close>

theorem npri_header_resolves:
  assumes "unquote ''Acme'' = ''Acme''"
    and "contains (upper (strip h)) ''NPRI''" and "contains (upper (strip h)) ''ID''"
  shows "download_npri_csv_with_selenium unquote acme_url (listing h) = Some ''4821''"
proof -
  have company: "\<not> contains (upper ''Company'') ''NPRI''"
    by code_simp
  have header_texts:
    "map get_text_strip [Tag ''th'' [] [Text ''Company''], Tag ''th'' [] [Text h]] =
       [''Company'', strip h]"
  proof -
    have "strip ''Company'' = ''Company''" by code_simp
    then show ?thesis by (simp add: get_text_strip_def interesting_string_types_def)
  qed
  have index: "npri_header_index 0 [''Company'', strip h] = Some (Suc 0)"
    using assms(2,3) company by simp
  have rows: "first_some (row_id ''Acme'' (Suc 0)) [header_row h, data_row] = Some ''4821''"
    by (simp add: header_row_id data_row_id)
  have "table_id unquote acme_url (Tag ''table'' [] [header_row h, data_row]) =
      Returns ''4821''"
    by (simp only: table_id_def rows_of_listing find_first_def acme_url_name header_texts
        Let_def index rows assms(1) list.case option.case)
  then show ?thesis
    by (simp add: download_npri_csv_with_selenium_def rows_of_listing)
qed

theorem npri_header_resolves_witness:
  "id ''Acme'' = ''Acme'' \<and> contains (upper (strip '' id (npri) '')) ''NPRI''
   \<and> contains (upper (strip '' id (npri) '')) ''ID''
   \<and> download_npri_csv_with_selenium id acme_url (listing '' id (npri) '') = Some ''4821''"
proof -
  have npri: "contains (upper (strip '' id (npri) '')) ''NPRI''" by code_simp
  have ident: "contains (upper (strip '' id (npri) '')) ''ID''" by code_simp
  show ?thesis
    using npri_header_resolves [of id "'' id (npri) ''", OF _ npri ident] npri ident by simp
qed

text \<open>
  C3, as stated, fails: when no table yields an identifier the resolver can still return a
  single value of its own choice. Here the page has no identifier column, and the
  resolver returns \<open>1368\<close>, the tail of a phone number.
\<close>

theorem known_id_counterexample:
  "scan_tables id acme_url (find_all [''table''] (phone_listing ''403-555-1368'')) =
     Falls_through
   \<and> download_npri_csv_with_selenium id acme_url (phone_listing ''403-555-1368'') =
       Some ''1368''"
  by code_simp

text \<open>
  C3, amended: when no table yields an identifier, the resolver returns \<open>None\<close> if the page
  has no table at all, and otherwise the first of the identifiers 1368, 6626 and 15098
  that occurs in the page text, \<open>None\<close> if none does. No other token of the text is ever
  returned. The page text is what \<open>get_text\<close> collects, so an identifier that stands only
  in a script, a style sheet, a template or a comment does not count.
\<close>

theorem table_miss_returns_known_id:
  assumes "scan_tables unquote url (find_all [''table''] soup) = Falls_through"
  shows "download_npri_csv_with_selenium unquote url soup =
     (if find_all [''table''] soup = [] then None
      else find (contains (get_text soup)) [''1368'', ''6626'', ''15098''])"
  using assms
  by (simp add: download_npri_csv_with_selenium_def text_fallback_def known_npri_ids_def)

theorem table_miss_returns_known_id_witness:
  "scan_tables id acme_url
      (find_all [''table''] (scripted_listing ''var id = 1368;'' ''403-555-4821'')) =
     Falls_through
   \<and> download_npri_csv_with_selenium id acme_url
       (scripted_listing ''var id = 1368;'' ''403-555-4821'') = None"
proof -
  have miss: "scan_tables id acme_url
      (find_all [''table''] (scripted_listing ''var id = 1368;'' ''403-555-4821''))
      = Falls_through"
    by code_simp
  have tables:
    "find_all [''table''] (scripted_listing ''var id = 1368;'' ''403-555-4821'') \<noteq> []"
    by code_simp
  have none: "find (contains (get_text (scripted_listing ''var id = 1368;'' ''403-555-4821'')))
      [''1368'', ''6626'', ''15098''] = None"
    by code_simp
  show ?thesis
    using table_miss_returns_known_id [OF miss] miss tables none by simp
qed

section \<open>\<open>process_single_company\<close>\<close>

text \<open>
  C4: \<open>process_single_company\<close> calls \<open>scrape_npri_data\<close>, a name that \<open>main.py\<close> never
  binds, so for every company name the call raises \<open>NameError\<close> and no tuple is returned.
\<close>

theorem process_single_company_raises:
  "process_single_company quote scrape_npri_data scrape_with_selenium name =
     Inl (NameError ''scrape_npri_data'')"
  by (simp add: process_single_company_def main_module_names_def Let_def)

section \<open>Precedence between the methods\<close>


lemma map_of_update_other: "k' \<noteq> k \<Longrightarrow> map_of (AList.update k' x m) k = map_of m k"
  by (simp add: update_conv')

lemma generic_step_keeps:
  "map_of m k = Some v \<Longrightarrow> map_of (generic_step src m kp) k = Some v"
  by (cases kp) (auto simp: generic_step_def update_conv' split: option.splits)

lemma foldl_keeps:
  assumes "\<And>m x. map_of m k = Some v \<Longrightarrow> map_of (f m x) k = Some v"
  shows "map_of m k = Some v \<Longrightarrow> map_of (foldl f m xs) k = Some v"
  by (induction xs arbitrary: m) (simp_all add: assms)

lemma method2_keeps: "map_of m k = Some v \<Longrightarrow> map_of (method2 src m) k = Some v"
  unfolding method2_def by (rule foldl_keeps) (rule generic_step_keeps)

lemma method3_keeps: "map_of m k = Some v \<Longrightarrow> map_of (method3 src m) k = Some v"
  by (auto simp: method3_def update_conv' split: option.splits)

lemma method4_keeps: "map_of m k = Some v \<Longrightarrow> map_of (method4 src m) k = Some v"
  by (auto simp: method4_def update_conv' split: option.splits)

lemma contact_step_keys:
  "kp \<in> set contact_patterns \<Longrightarrow> map_of (contact_step src m kp) k = Some v \<Longrightarrow>
     map_of m k = Some v \<or> k \<in> {''name'', ''position'', ''phone'', ''email'', ''language''}"
  by (auto simp: contact_step_def contact_patterns_def update_conv' split: option.splits if_splits)

lemma foldl_contact_keys:
  "set ps \<subseteq> set contact_patterns \<Longrightarrow> map_of (foldl (contact_step src) m ps) k = Some v \<Longrightarrow>
     map_of m k = Some v \<or> k \<in> {''name'', ''position'', ''phone'', ''email'', ''language''}"
proof (induction ps arbitrary: m)
  case Nil
  then show ?case by simp
next
  case (Cons p ps)
  from Cons.prems have "map_of (foldl (contact_step src) (contact_step src m p) ps) k = Some v"
    by simp
  with Cons.IH [of "contact_step src m p"] Cons.prems(1)
  have "map_of (contact_step src m p) k = Some v
      \<or> k \<in> {''name'', ''position'', ''phone'', ''email'', ''language''}"
    by simp
  with contact_step_keys [of p src m k v] Cons.prems(1) show ?case
    by auto
qed

lemma selenium_method1_keys:
  "map_of (selenium_method1 d []) k = Some v \<Longrightarrow>
     k \<in> {''name'', ''position'', ''phone'', ''email'', ''language''}"
  using foldl_contact_keys [of contact_patterns "page_source d" "[]" k v]
  by (simp add: selenium_method1_def)

lemma selenium_method2_keeps:
  "k \<noteq> ''business_number'' \<Longrightarrow> k \<noteq> ''employees'' \<Longrightarrow>
     map_of (selenium_method2 d m) k = map_of m k"
  by (auto simp: selenium_method2_def update_conv' Let_def split: list.splits option.splits)

text \<open>
  C2, as stated, fails: in \<open>scrape_contact_info_selenium\<close> the literals of Method 3 are
  assigned last and without a test. Here Method 1 has read the phone number after the
  label, and Method 3 replaces it by the literal that the page shows in another place.
\<close>

theorem literal_overwrites_counterexample:
  "map_of (selenium_method1
      (answering_driver ''Phone: 403-555-0199 Fax: 587-315-1181''
         (xpath_contains ''587-315-1181'') (Element ''Fax: 587-315-1181'' [])) [])
      ''phone'' = Some ''403-555-0199''
   \<and> map_of (selenium_contact_info
      (answering_driver ''Phone: 403-555-0199 Fax: 587-315-1181''
         (xpath_contains ''587-315-1181'') (Element ''Fax: 587-315-1181'' [])))
      ''phone'' = Some ''587-315-1181''"
  by code_simp

text \<open>
  C2, amended. In \<open>extract_contact_with_progress\<close> a key that is in the dictionary is never
  given another value by Methods 2, 3 and 4, so what Method 1 found stays. In
  \<open>scrape_contact_info_selenium\<close> a value Method 1 found stays too, except that Method 3
  replaces the name, the phone and the email by its literal when the page shows that
  literal.
\<close>

theorem first_writer_wins:
  "(map_of m k = Some v \<longrightarrow>
      map_of (method2 src m) k = Some v \<and> map_of (method3 src m) k = Some v
      \<and> map_of (method4 src m) k = Some v)
   \<and> (map_of (method1 nid src []) k = Some v \<longrightarrow> map_of (run_methods nid src []) k = Some v)
   \<and> (map_of (selenium_method1 d []) k = Some v \<longrightarrow>
        map_of (selenium_contact_info d) k =
          (if k = ''name'' \<and> find_elements d (xpath_contains ''Colin Hennel'') \<noteq> []
             then Some ''Colin Hennel''
           else if k = ''phone'' \<and> find_elements d (xpath_contains ''587-315-1181'') \<noteq> []
             then Some ''587-315-1181''
           else if k = ''email''
               \<and> find_elements d (xpath_contains ''chennel@pinecliffenergy.com'') \<noteq> []
             then Some ''chennel@pinecliffenergy.com''
           else Some v))"
proof (intro conjI impI)
  assume "map_of (selenium_method1 d []) k = Some v"
  moreover from this have "k \<in> {''name'', ''position'', ''phone'', ''email'', ''language''}"
    by (rule selenium_method1_keys)
  ultimately have "map_of (selenium_method2 d (selenium_method1 d [])) k = Some v"
    by (auto simp: selenium_method2_keeps)
  then show "map_of (selenium_contact_info d) k =
          (if k = ''name'' \<and> find_elements d (xpath_contains ''Colin Hennel'') \<noteq> []
             then Some ''Colin Hennel''
           else if k = ''phone'' \<and> find_elements d (xpath_contains ''587-315-1181'') \<noteq> []
             then Some ''587-315-1181''
           else if k = ''email''
               \<and> find_elements d (xpath_contains ''chennel@pinecliffenergy.com'') \<noteq> []
             then Some ''chennel@pinecliffenergy.com''
           else Some v)"
    by (auto simp: selenium_contact_info_def selenium_method3_def update_conv' Let_def)
next
  assume "map_of (method1 nid src []) k = Some v"
  then show "map_of (run_methods nid src []) k = Some v"
    by (simp add: run_methods_def method2_keeps method3_keeps method4_keeps)
qed (simp_all add: method2_keeps method3_keeps method4_keeps)

theorem first_writer_wins_witness:
  "map_of [(''phone'', ''587-315-1181'')] ''phone'' = Some ''587-315-1181''
   \<and> map_of (method1 ''1368'' ''Phone: 587-315-1181'' []) ''phone'' = Some ''587-315-1181''
   \<and> map_of (selenium_method1 (quiet_driver ''Phone: 587-315-1181'') []) ''phone'' =
       Some ''587-315-1181''
   \<and> map_of (method2 ''Phone: 403-555-0199'' [(''phone'', ''587-315-1181'')]) ''phone'' =
       Some ''587-315-1181''
   \<and> map_of (run_methods ''1368'' ''Phone: 587-315-1181'' []) ''phone'' = Some ''587-315-1181''
   \<and> map_of (selenium_contact_info (quiet_driver ''Phone: 587-315-1181'')) ''phone'' =
       Some ''587-315-1181''"
proof -
  have 1: "map_of [(''phone'', ''587-315-1181'')] ''phone'' = Some ''587-315-1181''"
    by simp
  have 2: "map_of (method1 ''1368'' ''Phone: 587-315-1181'' []) ''phone'' =
      Some ''587-315-1181''"
    by code_simp
  have 3: "map_of (selenium_method1 (quiet_driver ''Phone: 587-315-1181'') []) ''phone'' =
      Some ''587-315-1181''"
    by code_simp
  have 4: "find_elements (quiet_driver ''Phone: 587-315-1181'') x = []" for x
    by (simp add: quiet_driver_def)
  show ?thesis
    using first_writer_wins [of "[(''phone'', ''587-315-1181'')]" "''phone''" "''587-315-1181''"
        "''Phone: 403-555-0199''" "''1368''" "quiet_driver ''Phone: 587-315-1181''"] 
      first_writer_wins [of "[(''phone'', ''587-315-1181'')]" "''phone''" "''587-315-1181''"
        "''Phone: 587-315-1181''" "''1368''" "quiet_driver ''Phone: 587-315-1181''"] 1 2 3 4
    by simp
qed

section \<open>Soundness of the matcher\<close>


lemma lit_prefix_sound:
  "lit_prefix ic l s = Some (m, r) \<Longrightarrow> s = m @ r \<and> lit_eq ic l m"
proof (induction ic l s arbitrary: m r rule: lit_prefix.induct)
  case (1 ic s)
  then show ?case by simp
next
  case (2 ic p ps)
  then show ?case by simp
next
  case (3 ic p ps c cs)
  then show ?case by (auto split: if_splits)
qed

lemma consume_consume: "consume m2 (consume m1 st) = consume (m1 @ m2) st"
  by (simp add: consume_def)

lemma consume_Nil: "consume [] st = st"
  by (cases st) (simp add: consume_def)

lemma within_dec:
  "within (lo - 1) (dec_hi hi) n \<Longrightarrow> hi \<noteq> Some 0 \<Longrightarrow> within lo hi (Suc n)"
  by (cases hi) (auto simp: dec_hi_def)

lemma ms_Rep_zero:
  assumes "ms ic r w st st'" shows "ms ic (Rep cls 0 hi greedy # r) w st st'"
proof -
  have "ms ic (Rep cls 0 hi greedy # r) ([] @ w) st st'"
    by (rule ms_Rep) (cases hi; simp_all add: consume_Nil assms)+
  then show ?thesis by simp
qed

lemma ms_Rep_step:
  assumes "ms ic (Rep cls (lo - 1) (dec_hi hi) greedy # r) w (consume [c] st) st'"
    and "in_class ic cls c" and "hi \<noteq> Some 0"
  shows "ms ic (Rep cls lo hi greedy # r) (c # w) st st'"
proof -
  from assms(1) obtain m w' where w: "w = m @ w'"
    and m: "list_all (in_class ic cls) m" "within (lo - 1) (dec_hi hi) (length m)"
    and r: "ms ic r w' (consume m (consume [c] st)) st'"
    by (auto elim: ms_RepE)
  have "ms ic (Rep cls lo hi greedy # r) ((c # m) @ w') st st'"
  proof (rule ms_Rep)
    show "list_all (in_class ic cls) (c # m)" using m assms(2) by simp
    show "within lo hi (length (c # m))" using m assms(3) by (simp add: within_dec)
    show "ms ic r w' (consume (c # m) st) st'" using r by (simp add: consume_consume)
  qed
  with w show ?thesis by simp
qed

lemma bt_sound:
  "bt ic p s st = Some (st', rest) \<Longrightarrow> \<exists>w. s = w @ rest \<and> ms ic p w st st'"
proof (induction ic p s st arbitrary: st' rest rule: bt.induct)
  case (1 ic s st)
  then show ?case by (auto intro: ms_Nil)
next
  case (2 ic l r s st)
  then obtain m s' where l: "lit_prefix ic l s = Some (m, s')"
    and b: "bt ic r s' (consume m st) = Some (st', rest)"
    by (auto split: option.splits)
  from l have s: "s = m @ s'" and e: "lit_eq ic l m" by (auto dest: lit_prefix_sound)
  from "2.IH" [OF l refl b] obtain w where "s' = w @ rest" "ms ic r w (consume m st) st'"
    by auto
  with s e show ?case by (auto intro: ms_Lit)
next
  case (3 ic cls lo hi greedy r st)
  then show ?case by (auto split: if_splits intro: ms_Rep_zero)
next
  case (4 ic cls lo hi greedy r c cs st)
  show ?case
  proof (cases "in_class ic cls c \<and> hi \<noteq> Some 0")
    case False
    with "4.prems" have z: "lo = 0" and b: "bt ic r (c # cs) st = Some (st', rest)"
      by (auto split: if_splits)
    from "4.IH"(6) [OF False z b] show ?thesis using z by (auto intro: ms_Rep_zero)
  next
    case True
    note t = this
    show ?thesis
    proof (cases "0 < lo")
      case True
      with t "4.prems" have "bt ic (Rep cls (lo - 1) (dec_hi hi) greedy # r) cs (consume [c] st) = Some (st', rest)"
        by simp
      from "4.IH"(1) [OF t True this] obtain w where "cs = w @ rest"
        "ms ic (Rep cls (lo - 1) (dec_hi hi) greedy # r) w (consume [c] st) st'" by auto
      with t show ?thesis by (auto intro: ms_Rep_step)
    next
      case False
      note z = this
      show ?thesis
      proof (cases greedy)
        case True
        note g = this
        show ?thesis
        proof (cases "bt ic (Rep cls 0 (dec_hi hi) greedy # r) cs (consume [c] st)")
          case None
          with t z g "4.prems" have "bt ic r (c # cs) st = Some (st', rest)" by simp
          from "4.IH"(3) [OF t z g None this] z show ?thesis by (auto intro: ms_Rep_zero)
        next
          case (Some res)
          with t z g "4.prems" have "bt ic (Rep cls 0 (dec_hi hi) greedy # r) cs (consume [c] st) = Some (st', rest)"
            by simp
          from "4.IH"(2) [OF t z g this] obtain w where "cs = w @ rest"
            "ms ic (Rep cls 0 (dec_hi hi) greedy # r) w (consume [c] st) st'" by auto
          with t z show ?thesis by (auto intro: ms_Rep_step)
        qed
      next
        case False
        note g = this
        show ?thesis
        proof (cases "bt ic r (c # cs) st")
          case None
          with t z g "4.prems" have "bt ic (Rep cls 0 (dec_hi hi) greedy # r) cs (consume [c] st) = Some (st', rest)"
            by simp
          from "4.IH"(5) [OF t z g None this] obtain w where "cs = w @ rest"
            "ms ic (Rep cls 0 (dec_hi hi) greedy # r) w (consume [c] st) st'" by auto
          with t z show ?thesis by (auto intro: ms_Rep_step)
        next
          case (Some res)
          with t z g "4.prems" have "bt ic r (c # cs) st = Some (st', rest)" by simp
          from "4.IH"(4) [OF t z g this] z show ?thesis by (auto intro: ms_Rep_zero)
        qed
      qed
    qed
  qed
next
  case (5 ic r s st)
  then show ?case by (auto intro: ms_Open)
next
  case (6 ic r s st)
  then show ?case by (auto intro: ms_Close)
next
  case (7 ic r s st)
  then show ?case by (auto split: if_splits intro: ms_Eos)
next
  case (8 ic r s st)
  then show ?case by simp
next
  case (9 ic a as r s st)
  show ?case
  proof (cases "bt ic (a @ r) s st")
    case None
    with "9.prems" have "bt ic (Alts as # r) s st = Some (st', rest)" by simp
    from "9.IH"(2) [OF None this] obtain w where w: "s = w @ rest" "ms ic (Alts as # r) w st st'"
      by auto
    from w(2) have "ms ic (Alts (a # as) # r) w st st'"
      by (cases rule: ms_AltsE) (auto intro: ms_Alts)
    with w show ?thesis by auto
  next
    case (Some res)
    with "9.prems" have "bt ic (a @ r) s st = Some (st', rest)" by simp
    from "9.IH"(1) [OF this] obtain w where "s = w @ rest" "ms ic (a @ r) w st st'"
      by auto
    then show ?thesis using ms_Alts [of a "a # as" ic r w st st'] by auto
  qed
qed

lemma re_search_sound:
  "re_search ic p s = Some g \<Longrightarrow> \<exists>w st'. ms ic p w (False, []) st' \<and> snd st' = g"
proof (induction s)
  case Nil
  then obtain st' r where "bt ic p [] (False, []) = Some (st', r)" "snd st' = g"
    by auto
  then show ?case using bt_sound by blast
next
  case (Cons c cs)
  show ?case
  proof (cases "bt ic p (c # cs) (False, [])")
    case None
    with Cons show ?thesis by simp
  next
    case (Some res)
    with Cons.prems obtain st' r where "bt ic p (c # cs) (False, []) = Some (st', r)"
      "snd st' = g"
      by (cases res) auto
    then show ?thesis using bt_sound by blast
  qed
qed

section \<open>Shapes of the captured values\<close>

lemma class_chars:
  "\<forall>c. in_class True local_cls c = local_chr c"
  "\<forall>c. in_class True domain_cls c = domain_chr c"
  "\<forall>c. in_class True alpha_cls c = ascii_alpha c"
  "\<forall>c. in_class True phone_cls c = phone_chr c"
  "\<forall>c. in_class True digit_cls c = ascii_digit c"
  by code_simp+

lemma chars_apart:
  "\<forall>c. local_chr c \<longrightarrow> c \<noteq> CHR ''@'' \<and> \<not> isspace c"
  "\<forall>c. ascii_alpha c \<longrightarrow> c \<noteq> CHR ''.'' \<and> \<not> isspace c"
  "\<forall>c. ascii_digit c \<longrightarrow> \<not> isspace c"
  "\<forall>c. lower_chr CHR ''@'' = lower_chr c \<longrightarrow> c = CHR ''@''"
  "\<forall>c. lower_chr CHR ''.'' = lower_chr c \<longrightarrow> c = CHR ''.''"
  by code_simp+


lemma lit_eq_single:
  assumes "lit_eq ic [p] m" shows "\<exists>c. m = [c] \<and> (if ic then lower_chr p = lower_chr c else p = c)"
proof (cases m)
  case Nil
  with assms show ?thesis by simp
next
  case (Cons c cs)
  with assms show ?thesis by (cases cs) auto
qed

lemma lit_eq_at: "lit_eq True ''@'' m \<Longrightarrow> m = ''@''"
  using chars_apart(4) by (auto dest!: lit_eq_single)

lemma lit_eq_dot: "lit_eq True ''.'' m \<Longrightarrow> m = ''.''"
  using chars_apart(5) by (auto dest!: lit_eq_single)

lemma consume_closed: "consume m (False, g) = (False, g)"
  by (simp add: consume_def)

lemma consume_open: "consume m (True, g) = (True, g @ m)"
  by (simp add: consume_def)

lemma email_group:
  assumes "ms True email_pattern w (False, []) st'"
  shows "\<exists>l d t. snd st' = l @ ''@'' @ d @ ''.'' @ t
     \<and> l \<noteq> [] \<and> list_all local_chr l \<and> d \<noteq> [] \<and> list_all domain_chr d
     \<and> 2 \<le> length t \<and> list_all ascii_alpha t"
proof -
  from assms obtain w1 where
    "ms True [Rep space_cls 0 None True, Open, Rep local_cls 1 None True, Lit ''@'',
       Rep domain_cls 1 None True, Lit ''.'', Rep alpha_cls 2 None True, Close] w1 (False, []) st'"
    unfolding email_pattern_def by (auto elim!: ms_LitE simp: consume_closed)
  then obtain w2 where
    "ms True [Open, Rep local_cls 1 None True, Lit ''@'',
       Rep domain_cls 1 None True, Lit ''.'', Rep alpha_cls 2 None True, Close] w2 (False, []) st'"
    by (auto elim!: ms_RepE simp: consume_closed)
  then have "ms True [Rep local_cls 1 None True, Lit ''@'',
       Rep domain_cls 1 None True, Lit ''.'', Rep alpha_cls 2 None True, Close] w2 (True, []) st'"
    by (auto elim!: ms_OpenE)
  then obtain l w3 where l: "list_all (in_class True local_cls) l" "1 \<le> length l"
    and "ms True [Lit ''@'', Rep domain_cls 1 None True, Lit ''.'', Rep alpha_cls 2 None True,
       Close] w3 (True, l) st'"
    by (auto elim!: ms_RepE simp: consume_open)
  then obtain w4 where
    "ms True [Rep domain_cls 1 None True, Lit ''.'', Rep alpha_cls 2 None True, Close] w4
       (True, l @ ''@'') st'"
    by (auto elim!: ms_LitE dest!: lit_eq_at simp: consume_open)
  then obtain d w5 where d: "list_all (in_class True domain_cls) d" "1 \<le> length d"
    and "ms True [Lit ''.'', Rep alpha_cls 2 None True, Close] w5 (True, (l @ ''@'') @ d) st'"
    by (auto elim!: ms_RepE simp: consume_open)
  then obtain w6 where
    "ms True [Rep alpha_cls 2 None True, Close] w6 (True, ((l @ ''@'') @ d) @ ''.'') st'"
    by (auto elim!: ms_LitE dest!: lit_eq_dot simp: consume_open)
  then obtain t w7 where t: "list_all (in_class True alpha_cls) t" "2 \<le> length t"
    and "ms True [Close] w7 (True, (((l @ ''@'') @ d) @ ''.'') @ t) st'"
    by (auto elim!: ms_RepE simp: consume_open)
  then have "st' = (False, (((l @ ''@'') @ d) @ ''.'') @ t)"
    by (auto elim!: ms_CloseE ms_NilE)
  with l d t show ?thesis
    using class_chars(1-3) by (intro exI [of _ l] exI [of _ d] exI [of _ t]) (auto simp: list_all_iff)
qed


lemma email_shape_split:
  assumes "l \<noteq> []" "list_all local_chr l" "d \<noteq> []" "list_all domain_chr d"
    "2 \<le> length t" "list_all ascii_alpha t"
  shows "email_shape (l @ ''@'' @ d @ ''.'' @ t)"
proof -
  have l: "takeWhile (\<lambda>c. c \<noteq> CHR ''@'') (l @ ''@'' @ d @ ''.'' @ t) = l"
    using assms(2) chars_apart(1) by (simp add: takeWhile_tail list_all_iff)
  have t: "takeWhile (\<lambda>c. c \<noteq> CHR ''.'') (rev t @ CHR ''.'' # rev d) = rev t"
    using assms(6) chars_apart(2) by (simp add: takeWhile_tail list_all_iff)
  show ?thesis
    unfolding email_shape_def Let_def l using assms by (simp add: t)
qed

lemma strip_id: "s \<noteq> [] \<Longrightarrow> \<not> isspace (hd s) \<Longrightarrow> \<not> isspace (last s) \<Longrightarrow> strip s = s"
proof -
  assume s: "s \<noteq> []" "\<not> isspace (hd s)" "\<not> isspace (last s)"
  then have 1: "dropWhile isspace s = s" by (cases s) auto
  from s have "dropWhile isspace (rev s) = rev s" by (cases "rev s") (auto simp: hd_rev)
  with 1 show ?thesis by (simp add: strip_def)
qed

lemma last_dropWhile: "dropWhile P xs \<noteq> [] \<Longrightarrow> last (dropWhile P xs) = last xs"
  by (induction xs) (auto split: if_splits)

lemma strip_strip: "strip (strip s) = strip s"
proof (cases "strip s = []")
  case True
  moreover have "strip [] = []" by (simp add: strip_def)
  ultimately show ?thesis by simp
next
  case False
  define a where "a = dropWhile isspace s"
  define b where "b = dropWhile isspace (rev a)"
  have sb: "strip s = rev b" by (simp add: strip_def a_def b_def)
  with False have b: "b \<noteq> []" by simp
  then have a: "a \<noteq> []" by (auto simp: b_def)
  have "\<not> isspace (hd b)" using b unfolding b_def by (rule hd_dropWhile)
  then have 1: "\<not> isspace (last (rev b))" using b by (simp add: last_rev)
  have "last b = last (rev a)" using b unfolding b_def by (rule last_dropWhile)
  then have "last b = hd a" using a by (simp add: last_rev)
  moreover have "\<not> isspace (hd a)" using a unfolding a_def by (rule hd_dropWhile)
  ultimately have 2: "\<not> isspace (hd (rev b))" using b by (simp add: hd_rev)
  from b 1 2 have "strip (rev b) = rev b" by (intro strip_id) simp_all
  with sb show ?thesis by simp
qed

lemma set_strip: "set (strip s) \<subseteq> set s"
proof -
  have "set (strip s) = set (dropWhile isspace (rev (dropWhile isspace s)))"
    by (simp add: strip_def)
  also have "\<dots> \<subseteq> set (rev (dropWhile isspace s))" by (auto dest: set_dropWhileD)
  also have "\<dots> \<subseteq> set s" by (auto dest: set_dropWhileD)
  finally show ?thesis .
qed

lemma email_found:
  assumes "re_search True email_pattern src = Some g"
  shows "email_shape (strip g)"
proof -
  from re_search_sound [OF assms] obtain w st' where "ms True email_pattern w (False, []) st'"
    and g: "snd st' = g" by auto
  from email_group [OF this(1)] g obtain l d t where e: "g = l @ ''@'' @ d @ ''.'' @ t"
    and p: "l \<noteq> []" "list_all local_chr l" "d \<noteq> []" "list_all domain_chr d"
      "2 \<le> length t" "list_all ascii_alpha t"
    by auto
  from p have "\<not> isspace (hd l)" using chars_apart(1) by (cases l) auto
  moreover from p have "t \<noteq> []" by auto
  with p have "\<not> isspace (last t)" using chars_apart(2) by (auto simp: list_all_iff)
  ultimately have "strip g = g" using p e \<open>t \<noteq> []\<close> by (intro strip_id) auto
  with e email_shape_split [OF p] show ?thesis by simp
qed

lemma phone_found:
  assumes "re_search True phone_pattern src = Some g"
  shows "list_all phone_chr (strip g) \<and> strip (strip g) = strip g"
proof -
  from re_search_sound [OF assms] obtain w st' where "ms True phone_pattern w (False, []) st'"
    and g: "snd st' = g" by auto
  then obtain w1 where "ms True [Rep space_cls 0 None True, Open, Rep phone_cls 1 None True, Close]
      w1 (False, []) st'"
    unfolding phone_pattern_def by (auto elim!: ms_LitE simp: consume_closed)
  then obtain w2 where "ms True [Open, Rep phone_cls 1 None True, Close] w2 (False, []) st'"
    by (auto elim!: ms_RepE simp: consume_closed)
  then have "ms True [Rep phone_cls 1 None True, Close] w2 (True, []) st'"
    by (auto elim!: ms_OpenE)
  then obtain m w3 where m: "list_all (in_class True phone_cls) m"
    and "ms True [Close] w3 (True, m) st'"
    by (auto elim!: ms_RepE simp: consume_open)
  then have "st' = (False, m)" by (auto elim!: ms_CloseE ms_NilE)
  with g m have "list_all phone_chr g" using class_chars(4) by (auto simp: list_all_iff)
  then have "list_all phone_chr (strip g)" using set_strip [of g] by (auto simp: list_all_iff)
  then show ?thesis by (simp add: strip_strip)
qed

lemma business_number_found:
  assumes "re_search True business_number_pattern src = Some g"
  shows "length (strip g) = 9 \<and> list_all ascii_digit (strip g)"
proof -
  from re_search_sound [OF assms] obtain w st' where
    "ms True business_number_pattern w (False, []) st'" and g: "snd st' = g" by auto
  then obtain w1 where "ms True [Rep nondigit_cls 0 None True, Open,
      Rep digit_cls 9 (Some 9) True, Close] w1 (False, []) st'"
    unfolding business_number_pattern_def by (auto elim!: ms_LitE simp: consume_closed)
  then obtain w2 where "ms True [Open, Rep digit_cls 9 (Some 9) True, Close] w2 (False, []) st'"
    by (auto elim!: ms_RepE simp: consume_closed)
  then have "ms True [Rep digit_cls 9 (Some 9) True, Close] w2 (True, []) st'"
    by (auto elim!: ms_OpenE)
  then obtain m w3 where m: "list_all (in_class True digit_cls) m" "length m = 9"
    and "ms True [Close] w3 (True, m) st'"
    by (auto elim!: ms_RepE simp: consume_open)
  then have "st' = (False, m)" by (auto elim!: ms_CloseE ms_NilE)
  with g m have d: "list_all ascii_digit g" "length g = 9"
    using class_chars(5) by (auto simp: list_all_iff)
  then have ne: "g \<noteq> []" by auto
  with d have "\<not> isspace (hd g)" "\<not> isspace (last g)"
    using chars_apart(3) by (auto simp: list_all_iff)
  with ne have "strip g = g" by (rule strip_id)
  with d show ?thesis by simp
qed


lemma generic_step_map_of:
  "map_of (generic_step src m (k', p)) k =
     (if k = k' then (case map_of m k of Some v \<Rightarrow> Some v
                      | None \<Rightarrow> map_option strip (re_search True p src))
      else map_of m k)"
  by (auto simp: generic_step_def update_conv' split: option.splits)

lemma known_step_other: "k \<noteq> k' \<Longrightarrow> map_of (known_step src m (k', p)) k = map_of m k"
  by (auto simp: known_step_def update_conv' split: option.splits)

lemma known_step_own:
  "map_of (known_step src m (''business_number'', p)) ''business_number'' =
     (if re_search True p src \<noteq> None then Some ''863108833'' else map_of m ''business_number'')"
  "map_of (known_step src m (''phone'', p)) ''phone'' =
     (if re_search True p src \<noteq> None then Some ''587-315-1181'' else map_of m ''phone'')"
  "map_of (known_step src m (''email'', p)) ''email'' =
     (if re_search True p src \<noteq> None then Some ''chennel@pinecliffenergy.com''
      else map_of m ''email'')"
  by (simp_all add: known_step_def update_conv')

lemma method1_values:
  "map_of (method1 nid src []) ''business_number'' =
     (if nid = ''1368'' \<and> re_search True [Lit ''863108833''] src \<noteq> None
      then Some ''863108833'' else None)"
  "map_of (method1 nid src []) ''phone'' =
     (if nid = ''1368'' \<and> re_search True [Lit ''587-315-1181''] src \<noteq> None
      then Some ''587-315-1181'' else None)"
  "map_of (method1 nid src []) ''email'' =
     (if nid = ''1368'' \<and> re_search True [Lit ''chennel@pinecliffenergy.com''] src \<noteq> None
      then Some ''chennel@pinecliffenergy.com'' else None)"
  by (simp_all add: method1_def known_patterns_def known_step_other known_step_own)

lemma method2_values:
  "map_of (method2 src m) ''business_number'' =
     (case map_of m ''business_number'' of Some v \<Rightarrow> Some v
      | None \<Rightarrow> map_option strip (re_search True business_number_pattern src))"
  "map_of (method2 src m) ''phone'' =
     (case map_of m ''phone'' of Some v \<Rightarrow> Some v
      | None \<Rightarrow> map_option strip (re_search True phone_pattern src))"
  "map_of (method2 src m) ''email'' =
     (case map_of m ''email'' of Some v \<Rightarrow> Some v
      | None \<Rightarrow> map_option strip (re_search True email_pattern src))"
  by (simp_all add: method2_def generic_patterns_def generic_step_map_of)

lemma method3_other: "k \<noteq> ''contact_name'' \<Longrightarrow> map_of (method3 src m) k = map_of m k"
  by (simp add: method3_def update_conv' split: option.splits)

lemma method4_other: "k \<noteq> ''position'' \<Longrightarrow> map_of (method4 src m) k = map_of m k"
  by (simp add: method4_def update_conv' split: option.splits)

lemma final_values:
  "map_of (run_methods nid src []) ''business_number'' =
     (if nid = ''1368'' \<and> re_search True [Lit ''863108833''] src \<noteq> None
      then Some ''863108833''
      else map_option strip (re_search True business_number_pattern src))"
  "map_of (run_methods nid src []) ''phone'' =
     (if nid = ''1368'' \<and> re_search True [Lit ''587-315-1181''] src \<noteq> None
      then Some ''587-315-1181''
      else map_option strip (re_search True phone_pattern src))"
  "map_of (run_methods nid src []) ''email'' =
     (if nid = ''1368'' \<and> re_search True [Lit ''chennel@pinecliffenergy.com''] src \<noteq> None
      then Some ''chennel@pinecliffenergy.com''
      else map_option strip (re_search True email_pattern src))"
  by (auto simp: run_methods_def method4_other method3_other method2_values method1_values)

lemma contact_step_map_of:
  "map_of (contact_step src m (k', p)) k =
     (if k = k' then (case re_search True p src of Some g \<Rightarrow> Some (strip g)
                      | None \<Rightarrow> map_of m k)
      else map_of m k)"
  by (auto simp: contact_step_def update_conv' split: option.splits)

lemma selenium_values:
  "map_of (selenium_contact_info d) ''phone'' =
     (if find_elements d (xpath_contains ''587-315-1181'') \<noteq> [] then Some ''587-315-1181''
      else map_option strip (re_search True phone_pattern (page_source d)))"
  "map_of (selenium_contact_info d) ''email'' =
     (if find_elements d (xpath_contains ''chennel@pinecliffenergy.com'') \<noteq> []
      then Some ''chennel@pinecliffenergy.com''
      else map_option strip (re_search True email_pattern (page_source d)))"
  by (auto simp: selenium_contact_info_def selenium_method3_def selenium_method2_keeps
      selenium_method1_def contact_patterns_def contact_step_map_of update_conv' Let_def
      split: option.splits)

lemma selenium_business_number:
  "map_of (selenium_contact_info d) ''business_number'' =
     (case find_elements d xpath_business_number of
        [] \<Rightarrow> None
      | e # _ \<Rightarrow> Some (strip (text_of e)))"
  by (auto simp: selenium_contact_info_def selenium_method3_def selenium_method2_def
      selenium_method1_def contact_patterns_def contact_step_map_of update_conv' Let_def
      split: option.splits list.splits)

lemma literal_shapes:
  "email_shape ''chennel@pinecliffenergy.com''"
  "list_all phone_chr ''587-315-1181''" "strip ''587-315-1181'' = ''587-315-1181''"
  "list_all ascii_digit ''863108833''"
  by code_simp+

text \<open>
  C5, as stated, fails: the phone pattern takes white space along with digits, hyphens and
  parentheses, and only the ends are stripped, so a number written with spaces is stored
  with them.
\<close>

theorem whitespace_phone_counterexample:
  "extract_cascade ''6626'' ''Phone: 587 315 1181'' = Some [(''phone'', ''587 315 1181'')]
   \<and> isspace (''587 315 1181'' ! 3)"
  by code_simp

text \<open>
  C5, amended: in every dictionary that \<open>extract_contact_with_progress\<close> returns, an email
  has the shape \<open>local@domain.tld\<close>, a business number is nine ASCII digits, and a phone
  consists of digits, hyphens, parentheses and white space, with no white space at its
  ends. In a dictionary that \<open>scrape_contact_info_selenium\<close> returns, the email and the
  phone are of the same shapes, and the business number is the stripped text of the first
  element the browser finds for it.
\<close>

theorem stored_values_have_shape:
  "(extract_cascade nid src = Some m \<longrightarrow>
      (\<forall>e. map_of m ''email'' = Some e \<longrightarrow> email_shape e)
      \<and> (\<forall>b. map_of m ''business_number'' = Some b \<longrightarrow> length b = 9 \<and> list_all ascii_digit b)
      \<and> (\<forall>p. map_of m ''phone'' = Some p \<longrightarrow> list_all phone_chr p \<and> strip p = p))
   \<and> (scrape_contact_info_selenium d = Some m' \<longrightarrow>
      (\<forall>e. map_of m' ''email'' = Some e \<longrightarrow> email_shape e)
      \<and> (\<forall>p. map_of m' ''phone'' = Some p \<longrightarrow> list_all phone_chr p \<and> strip p = p)
      \<and> (\<forall>el els. find_elements d xpath_business_number = el # els \<longrightarrow>
            map_of m' ''business_number'' = Some (strip (text_of el))))"
proof (intro conjI impI)
  assume "extract_cascade nid src = Some m"
  then have m: "m = run_methods nid src []"
    by (simp add: extract_cascade_def return_contact_info_def split: if_splits)
  show "\<forall>e. map_of m ''email'' = Some e \<longrightarrow> email_shape e"
    unfolding m final_values using literal_shapes email_found [of src]
    by (auto split: if_splits)
  show "\<forall>b. map_of m ''business_number'' = Some b \<longrightarrow> length b = 9 \<and> list_all ascii_digit b"
    unfolding m final_values using literal_shapes business_number_found [of src]
    by (auto split: if_splits)
  show "\<forall>p. map_of m ''phone'' = Some p \<longrightarrow> list_all phone_chr p \<and> strip p = p"
    unfolding m final_values using literal_shapes phone_found [of src]
    by (auto split: if_splits)
next
  assume "scrape_contact_info_selenium d = Some m'"
  then have m: "m' = selenium_contact_info d"
    by (simp add: scrape_contact_info_selenium_def Let_def split: if_splits)
  show "\<forall>e. map_of m' ''email'' = Some e \<longrightarrow> email_shape e"
    unfolding m selenium_values using literal_shapes email_found [of "page_source d"]
    by (auto split: if_splits)
  show "\<forall>p. map_of m' ''phone'' = Some p \<longrightarrow> list_all phone_chr p \<and> strip p = p"
    unfolding m selenium_values using literal_shapes phone_found [of "page_source d"]
    by (auto split: if_splits)
  show "\<forall>el els. find_elements d xpath_business_number = el # els \<longrightarrow>
      map_of m' ''business_number'' = Some (strip (text_of el))"
    unfolding m selenium_business_number by simp
qed

theorem stored_values_have_shape_witness:
  "extract_cascade ''6626''
      ''Phone: (587) 315-1181 Email: a.b@c-d.org Business number: 863108833'' =
     Some [(''business_number'', ''863108833''), (''phone'', ''(587) 315-1181''),
           (''email'', ''a.b@c-d.org'')]
   \<and> scrape_contact_info_selenium
       (answering_driver ''Phone: (587) 315-1181 Email: a.b@c-d.org'' xpath_business_number
          (Element ''Business number: 863108833 '' [])) =
     Some [(''phone'', ''(587) 315-1181''), (''email'', ''a.b@c-d.org''),
           (''business_number'', ''Business number: 863108833'')]
   \<and> find_elements
       (answering_driver ''Phone: (587) 315-1181 Email: a.b@c-d.org'' xpath_business_number
          (Element ''Business number: 863108833 '' [])) xpath_business_number =
     [Element ''Business number: 863108833 '' []]
   \<and> email_shape ''a.b@c-d.org''
   \<and> length ''863108833'' = 9 \<and> list_all ascii_digit ''863108833''
   \<and> list_all phone_chr ''(587) 315-1181'' \<and> strip ''(587) 315-1181'' = ''(587) 315-1181''
   \<and> strip ''Business number: 863108833 '' = ''Business number: 863108833''"
proof -
  have run: "extract_cascade ''6626''
      ''Phone: (587) 315-1181 Email: a.b@c-d.org Business number: 863108833'' =
     Some [(''business_number'', ''863108833''), (''phone'', ''(587) 315-1181''),
           (''email'', ''a.b@c-d.org'')]"
    by code_simp
  have scrape: "scrape_contact_info_selenium
       (answering_driver ''Phone: (587) 315-1181 Email: a.b@c-d.org'' xpath_business_number
          (Element ''Business number: 863108833 '' [])) =
     Some [(''phone'', ''(587) 315-1181''), (''email'', ''a.b@c-d.org''),
           (''business_number'', ''Business number: 863108833'')]"
    by code_simp
  have found: "find_elements
       (answering_driver ''Phone: (587) 315-1181 Email: a.b@c-d.org'' xpath_business_number
          (Element ''Business number: 863108833 '' [])) xpath_business_number =
     [Element ''Business number: 863108833 '' []]"
    by (simp add: answering_driver_def)
  show ?thesis
    using stored_values_have_shape [of "''6626''"
        "''Phone: (587) 315-1181 Email: a.b@c-d.org Business number: 863108833''"
        "[(''business_number'', ''863108833''), (''phone'', ''(587) 315-1181''),
          (''email'', ''a.b@c-d.org'')]"
        "answering_driver ''Phone: (587) 315-1181 Email: a.b@c-d.org'' xpath_business_number
          (Element ''Business number: 863108833 '' [])"
        "[(''phone'', ''(587) 315-1181''), (''email'', ''a.b@c-d.org''),
          (''business_number'', ''Business number: 863108833'')]"] run scrape found
    by simp
qed

section \<open>A phone number next to markup\<close>

lemma clean_keeps_phone: "map_of (clean_contact_info m) ''phone'' = map_of m ''phone''"
  by (simp add: clean_contact_info_def update_conv' split: option.splits)

text \<open>
  C8, as stated, fails: no step strips a tag from a phone value. With the number inside a
  tag, the labeled pattern captures the white space after the label and nothing else, and
  the stored phone is the empty string.
\<close>

theorem tag_before_number_counterexample:
  "extract_cascade ''6626'' ''Phone: <b>587-315-1181</b>'' = Some [(''phone'', [])]"
  by code_simp

text \<open>
  C8, amended: when the number follows the label and markup follows the number, the
  labeled pattern stops at the tag, and the merged phone value is exactly
  \<open>587-315-1181\<close>, whatever comes after, for every identifier and in both extractors.
  The clean-up of \<open>clean_contact_data\<close> changes the position only and leaves the phone as
  it is.
\<close>

theorem phone_before_markup:
  "map_of (run_methods nid (''<td>Phone: 587-315-1181</td>'' @ rest) []) ''phone'' =
     Some ''587-315-1181''
   \<and> (page_source d = ''<td>Phone: 587-315-1181</td>'' @ rest \<longrightarrow>
        map_of (selenium_contact_info d) ''phone'' = Some ''587-315-1181'')
   \<and> map_of (clean_contact_info m) ''phone'' = map_of m ''phone''"
proof -
  define src where "src = ''<td>Phone: 587-315-1181</td>'' @ rest"
  have found: "re_search True phone_pattern src = Some ''587-315-1181''"
    unfolding src_def by code_simp
  have stripped: "strip ''587-315-1181'' = ''587-315-1181''"
    by code_simp
  have improved: "map_of (run_methods nid src []) ''phone'' = Some ''587-315-1181''"
    unfolding final_values found by (simp only: stripped option.map if_cancel)
  have selenium: "map_of (selenium_contact_info d) ''phone'' = Some ''587-315-1181''"
    if "page_source d = src"
    unfolding selenium_values that found by (simp only: stripped option.map if_cancel)
  from improved selenium show ?thesis
    unfolding src_def [symmetric] clean_keeps_phone by blast
qed

theorem phone_before_markup_witness:
  "page_source (quiet_driver (''<td>Phone: 587-315-1181</td>'' @ ''</tr>'')) =
     ''<td>Phone: 587-315-1181</td>'' @ ''</tr>''
   \<and> map_of (selenium_contact_info
        (quiet_driver (''<td>Phone: 587-315-1181</td>'' @ ''</tr>''))) ''phone'' =
       Some ''587-315-1181''
   \<and> map_of (run_methods ''6626'' (''<td>Phone: 587-315-1181</td>'' @ ''</tr>'') []) ''phone'' =
       Some ''587-315-1181''"
proof -
  have src: "page_source (quiet_driver (''<td>Phone: 587-315-1181</td>'' @ ''</tr>'')) =
     ''<td>Phone: 587-315-1181</td>'' @ ''</tr>''"
    by (simp only: quiet_driver_def driver.select_convs)
  show ?thesis
    using phone_before_markup [of "''6626''" "''</tr>''"
        "quiet_driver (''<td>Phone: 587-315-1181</td>'' @ ''</tr>'')" "[]"] src
    by blast
qed

section \<open>The success flag\<close>

text \<open>
  C10: the recorded flag is true exactly when the dictionary the extractor built holds a
  key, which is when a dictionary is returned at all; the values are not looked at. A page
  where a tag follows the \<open>Phone:\<close> label binds \<open>phone\<close> to the empty string and is
  recorded as a success.
\<close>

theorem success_iff_some_key:
  "(success (make_result name nid (scrape_contact_info_selenium d))
      \<longleftrightarrow> selenium_contact_info d \<noteq> [])
   \<and> (success (make_result name nid (scrape_contact_info_selenium d))
      \<longleftrightarrow> (\<exists>m. scrape_contact_info_selenium d = Some m \<and> m \<noteq> []))
   \<and> (success (make_result name nid (extract_cascade nid src))
      \<longleftrightarrow> (\<exists>m. extract_cascade nid src = Some m \<and> m \<noteq> []))
   \<and> scrape_contact_info_selenium (quiet_driver ''Phone: <span>403-555-0199</span>'') =
       Some [(''phone'', [])]
   \<and> success (make_result ''Acme Ltd'' ''6626''
       (scrape_contact_info_selenium (quiet_driver ''Phone: <span>403-555-0199</span>'')))"
proof -
  have run: "scrape_contact_info_selenium (quiet_driver ''Phone: <span>403-555-0199</span>'') =
       Some [(''phone'', [])]"
    by code_simp
  show ?thesis
    unfolding run
    by (auto simp: make_result_def scrape_contact_info_selenium_def extract_cascade_def
        return_contact_info_def Let_def)
qed

theorem success_iff_some_key_witness:
  "success (make_result ''Acme Ltd'' ''6626''
      (scrape_contact_info_selenium (quiet_driver ''Phone: 403-555-0199'')))
   \<and> selenium_contact_info (quiet_driver ''Phone: 403-555-0199'') =
       [(''phone'', ''403-555-0199'')]"
proof -
  have run: "selenium_contact_info (quiet_driver ''Phone: 403-555-0199'') =
      [(''phone'', ''403-555-0199'')]"
    by code_simp
  show ?thesis
    using success_iff_some_key [of "''Acme Ltd''" "''6626''"
        "quiet_driver ''Phone: 403-555-0199''" "[]"] run
    by simp
qed

section \<open>Running the extraction again\<close>









section \<open>When the extraction starts\<close>

lemma wait_until_time:
  "wait_until c e now = (w, u) \<Longrightarrow>
     now \<le> u \<and> (w = Inr () \<longrightarrow> c u) \<and> (w = Inl TimeoutException \<longrightarrow> e < u)
     \<and> (now \<le> e \<longrightarrow> u \<le> e + 500)"
proof (induction c e now arbitrary: w u rule: wait_until.induct)
  case (1 c e now)
  show ?case
  proof (cases "c now")
    case True
    with "1.prems" show ?thesis by (auto simp: wait_until.simps [of c e now])
  next
    case False
    note nc = this
    show ?thesis
    proof (cases "e < now + 500")
      case True
      with nc "1.prems" show ?thesis by (auto simp: wait_until.simps [of c e now] Let_def)
    next
      case False
      with nc "1.prems" have "wait_until c e (now + 500) = (w, u)"
        by (simp add: wait_until.simps [of c e now] Let_def)
      from "1.IH" [OF nc refl False this] nc False show ?thesis by auto
    qed
  qed
qed

lemma selenium_start:
  "fst (scrape_contact_info_selenium_timed timeout browser) =
     snd (wait_until (\<lambda>t. content_located (browser t)) (10000 + 1000 * timeout) 10000) + 15000"
  by (simp add: scrape_contact_info_selenium_timed_def Let_def split: prod.splits sum.splits
      wait_error.splits)

lemma selenium_proceeds:
  "snd (scrape_contact_info_selenium_timed timeout browser) =
     scrape_contact_info_selenium
       (browser (fst (scrape_contact_info_selenium_timed timeout browser)))"
  by (simp add: scrape_contact_info_selenium_timed_def Let_def split: prod.splits sum.splits
      wait_error.splits)

lemma selenium_settles:
  assumes "\<And>u. content_located (browser u) \<Longrightarrow> t \<le> u" and "t \<le> 10000 + 1000 * timeout"
  shows "t + 15000 \<le> fst (scrape_contact_info_selenium_timed timeout browser)"
proof -
  obtain w u where r:
    "wait_until (\<lambda>t. content_located (browser t)) (10000 + 1000 * timeout) 10000 = (w, u)"
    by (cases "wait_until (\<lambda>t. content_located (browser t)) (10000 + 1000 * timeout) 10000")
  have "t \<le> u"
  proof (cases w)
    case (Inl x)
    then have "w = Inl TimeoutException" by (cases x) simp
    with wait_until_time [OF r] assms(2) show ?thesis by simp
  next
    case (Inr y)
    with wait_until_time [OF r] assms(1) show ?thesis by simp
  qed
  then show ?thesis by (simp add: selenium_start r)
qed

lemma selenium_times_out:
  assumes "\<And>u. \<not> content_located (browser u)"
  shows "10000 + 1000 * timeout + 15000 \<le> fst (scrape_contact_info_selenium_timed timeout browser)
    \<and> fst (scrape_contact_info_selenium_timed timeout browser) \<le> 10000 + 1000 * timeout + 15500"
proof -
  obtain w u where r:
    "wait_until (\<lambda>t. content_located (browser t)) (10000 + 1000 * timeout) 10000 = (w, u)"
    by (cases "wait_until (\<lambda>t. content_located (browser t)) (10000 + 1000 * timeout) 10000")
  have "w = Inl TimeoutException"
  proof (cases w)
    case (Inl x)
    then show ?thesis by (cases x) simp
  next
    case (Inr y)
    with wait_until_time [OF r] assms show ?thesis by simp
  qed
  with wait_until_time [OF r] show ?thesis by (simp add: selenium_start r)
qed

lemma progressive_wait_found:
  "1 \<le> k \<Longrightarrow> k \<le> n \<Longrightarrow> content_detected (page (now + 5000 * k)) \<Longrightarrow>
   (\<And>j. 1 \<le> j \<Longrightarrow> j < k \<Longrightarrow> \<not> content_detected (page (now + 5000 * j))) \<Longrightarrow>
   progressive_wait page n now = (True, now + 5000 * k)"
proof (induction n arbitrary: now k)
  case 0
  then show ?case by simp
next
  case (Suc n)
  show ?case
  proof (cases "k = 1")
    case True
    with Suc.prems show ?thesis by simp
  next
    case False
    with Suc.prems have k: "2 \<le> k" by simp
    with Suc.prems(4) [of 1] have first: "\<not> content_detected (page (now + 5000))" by simp
    have eq: "now + 5000 + 5000 * (k - 1) = now + 5000 * k"
      using k by (simp add: algebra_simps)
    have "progressive_wait page n (now + 5000) = (True, now + 5000 + 5000 * (k - 1))"
    proof (rule Suc.IH)
      show "1 \<le> k - 1" using k by simp
      show "k - 1 \<le> n" using Suc.prems by simp
      show "content_detected (page (now + 5000 + 5000 * (k - 1)))"
        using Suc.prems(3) by (simp only: eq)
      fix j assume j: "1 \<le> j" "j < k - 1"
      have "now + 5000 + 5000 * j = now + 5000 * Suc j" by simp
      moreover have "\<not> content_detected (page (now + 5000 * Suc j))"
        using j by (intro Suc.prems(4)) simp_all
      ultimately show "\<not> content_detected (page (now + 5000 + 5000 * j))" by metis
    qed
    then have "progressive_wait page n (now + 5000) = (True, now + 5000 * k)"
      by (simp only: eq)
    with first show ?thesis by simp
  qed
qed

lemma progressive_wait_none:
  "(\<And>j. 1 \<le> j \<Longrightarrow> j \<le> n \<Longrightarrow> \<not> content_detected (page (now + 5000 * j))) \<Longrightarrow>
   progressive_wait page n now = (False, now + 5000 * n)"
proof (induction n arbitrary: now)
  case 0
  then show ?case by simp
next
  case (Suc n)
  from Suc.prems [of 1] have first: "\<not> content_detected (page (now + 5000))" by simp
  have "progressive_wait page n (now + 5000) = (False, now + 5000 + 5000 * n)"
  proof (rule Suc.IH)
    fix j assume j: "1 \<le> j" "j \<le> n"
    have "now + 5000 + 5000 * j = now + 5000 * Suc j" by simp
    moreover have "\<not> content_detected (page (now + 5000 * Suc j))"
      using j by (intro Suc.prems) simp_all
    ultimately show "\<not> content_detected (page (now + 5000 + 5000 * j))" by metis
  qed
  with first show ?case by simp
qed

lemma progress_start:
  "fst (extract_contact_with_progress_timed fs ident page) = snd (progressive_wait page 6 0)"
  by (simp add: extract_contact_with_progress_timed_def split: prod.splits)

lemma progress_proceeds:
  "snd (extract_contact_with_progress_timed fs ident page) =
     extract_contact_with_progress fs ident
       (page (fst (extract_contact_with_progress_timed fs ident page)))"
  by (simp add: extract_contact_with_progress_timed_def split: prod.splits)

text \<open>
  C7, as stated, fails: \<open>extract_contact_with_progress\<close> has no settle delay. Here the
  content appears five seconds after the page was loaded, well inside the budget of
  thirty, and the extraction starts at that same instant.
\<close>

theorem no_settle_delay_counterexample:
  "fst (extract_contact_with_progress_timed open_disk ''6626''
      (appearing_page 5000 ''Contact information Phone: 403-555-0199'')) = 5000"
proof -
  have shown: "content_detected ''Contact information Phone: 403-555-0199''"
    by code_simp
  have "progressive_wait (appearing_page 5000 ''Contact information Phone: 403-555-0199'') 6 0
      = (True, 0 + 5000 * 1)"
    by (rule progressive_wait_found) (simp_all add: appearing_page_def shown)
  then show ?thesis by (simp add: progress_start)
qed

text \<open>
  C7, amended. Neither waiter raises on timeout, and neither keeps a flag: after either
  outcome the extraction runs on what the browser shows when it starts, and its result is
  all that is returned. In \<open>scrape_contact_info_selenium\<close> fifteen seconds of settle delay
  follow the wait: when the content appears at a time \<open>t\<close> not later than the end of the
  wait (ten seconds and the timeout), the extraction starts at \<open>t\<close> plus fifteen seconds
  or later, and when it never appears the extraction starts fifteen seconds after the end
  of the wait, at most one polling interval late and never early. In
  \<open>extract_contact_with_progress\<close> there is no settle delay: the extraction starts at
  the first of the polls at 5, 10, ..., 30 seconds that finds the content, and at 30
  seconds when none does.
\<close>

theorem waiters_when_extraction_starts:
  "((\<forall>u. content_located (browser u) \<longrightarrow> t \<le> u) \<and> t \<le> 10000 + 1000 * timeout \<longrightarrow>
      t + 15000 \<le> fst (scrape_contact_info_selenium_timed timeout browser))
   \<and> ((\<forall>u. \<not> content_located (browser u)) \<longrightarrow>
      10000 + 1000 * timeout + 15000 \<le> fst (scrape_contact_info_selenium_timed timeout browser)
      \<and> fst (scrape_contact_info_selenium_timed timeout browser)
          \<le> 10000 + 1000 * timeout + 15500)
   \<and> snd (scrape_contact_info_selenium_timed timeout browser) =
      scrape_contact_info_selenium
        (browser (fst (scrape_contact_info_selenium_timed timeout browser)))
   \<and> (1 \<le> k \<and> k \<le> 6 \<and> content_detected (page (5000 * k))
       \<and> (\<forall>j. 1 \<le> j \<and> j < k \<longrightarrow> \<not> content_detected (page (5000 * j))) \<longrightarrow>
      fst (extract_contact_with_progress_timed fs ident page) = 5000 * k)
   \<and> ((\<forall>j. 1 \<le> j \<and> j \<le> 6 \<longrightarrow> \<not> content_detected (page (5000 * j))) \<longrightarrow>
      fst (extract_contact_with_progress_timed fs ident page) = 30000)
   \<and> snd (extract_contact_with_progress_timed fs ident page) =
      extract_contact_with_progress fs ident
        (page (fst (extract_contact_with_progress_timed fs ident page)))"
proof (intro conjI impI)
  assume "(\<forall>u. content_located (browser u) \<longrightarrow> t \<le> u) \<and> t \<le> 10000 + 1000 * timeout"
  then show "t + 15000 \<le> fst (scrape_contact_info_selenium_timed timeout browser)"
    by (intro selenium_settles) auto
next
  assume a: "\<forall>u. \<not> content_located (browser u)"
  then show "10000 + 1000 * timeout + 15000
      \<le> fst (scrape_contact_info_selenium_timed timeout browser)"
    using selenium_times_out [of browser timeout] by simp
  from a show "fst (scrape_contact_info_selenium_timed timeout browser)
      \<le> 10000 + 1000 * timeout + 15500"
    using selenium_times_out [of browser timeout] by simp
next
  assume a: "1 \<le> k \<and> k \<le> 6 \<and> content_detected (page (5000 * k))
       \<and> (\<forall>j. 1 \<le> j \<and> j < k \<longrightarrow> \<not> content_detected (page (5000 * j)))"
  have "progressive_wait page 6 0 = (True, 0 + 5000 * k)"
    using a by (intro progressive_wait_found) auto
  then show "fst (extract_contact_with_progress_timed fs ident page) = 5000 * k"
    by (simp add: progress_start)
next
  assume a: "\<forall>j. 1 \<le> j \<and> j \<le> 6 \<longrightarrow> \<not> content_detected (page (5000 * j))"
  have "progressive_wait page 6 0 = (False, 0 + 5000 * 6)"
    using a by (intro progressive_wait_none) auto
  then show "fst (extract_contact_with_progress_timed fs ident page) = 30000"
    by (simp add: progress_start)
qed (rule selenium_proceeds progress_proceeds)+

theorem waiters_when_extraction_starts_witness:
  "12000 + 15000 \<le> fst (scrape_contact_info_selenium_timed 45
      (appearing_browser 12000
         (answering_driver ''Contact information'' (xpath_contains ''Contact information'')
            (Element ''Contact information'' []))))
   \<and> 10000 + 1000 * 45 + 15000 \<le> fst (scrape_contact_info_selenium_timed 45
      (appearing_browser 0 (quiet_driver [])))
   \<and> fst (extract_contact_with_progress_timed open_disk ''6626''
      (appearing_page 10000 ''Contact information'')) = 5000 * 2
   \<and> fst (extract_contact_with_progress_timed open_disk ''6626''
      (appearing_page 0 ''loading'')) = 30000"
proof -
  let ?d = "answering_driver ''Contact information'' (xpath_contains ''Contact information'')
      (Element ''Contact information'' [])"
  have quiet: "\<not> content_located (quiet_driver src)" for src
    by (simp add: content_located_def quiet_driver_def)
  have shown: "content_detected ''Contact information''"
    by code_simp
  have blank: "\<not> content_detected []"
    by code_simp
  have loading: "\<not> content_detected ''loading''"
    by code_simp
  have after: "\<forall>u. content_located (appearing_browser 12000 ?d u) \<longrightarrow> 12000 \<le> u"
    by (simp add: appearing_browser_def quiet)
  have never: "\<forall>u. \<not> content_located (appearing_browser 0 (quiet_driver []) u)"
    by (simp add: appearing_browser_def quiet)
  have second: "1 \<le> (2::nat) \<and> (2::nat) \<le> 6
      \<and> content_detected (appearing_page 10000 ''Contact information'' (5000 * 2))
      \<and> (\<forall>j. 1 \<le> j \<and> j < 2 \<longrightarrow>
            \<not> content_detected (appearing_page 10000 ''Contact information'' (5000 * j)))"
  proof (intro conjI allI impI)
    fix j :: nat assume "1 \<le> j \<and> j < 2"
    then have "j = 1" by simp
    then show "\<not> content_detected (appearing_page 10000 ''Contact information'' (5000 * j))"
      by (simp add: appearing_page_def blank)
  qed (simp_all add: appearing_page_def shown)
  have none: "\<forall>j. 1 \<le> j \<and> j \<le> 6 \<longrightarrow>
      \<not> content_detected (appearing_page 0 ''loading'' (5000 * j))"
    by (simp add: appearing_page_def loading)
  note a = waiters_when_extraction_starts [of "appearing_browser 12000 ?d" 12000 45,
      THEN conjunct1, rule_format]
  note b = waiters_when_extraction_starts [of "appearing_browser 0 (quiet_driver [])" 0 45,
      THEN conjunct2, THEN conjunct1, rule_format, THEN conjunct1]
  note c = waiters_when_extraction_starts [of _ _ _ 2
      "appearing_page 10000 ''Contact information''" open_disk "''6626''",
      THEN conjunct2, THEN conjunct2, THEN conjunct2, THEN conjunct1, rule_format]
  note d = waiters_when_extraction_starts [of _ _ _ _ "appearing_page 0 ''loading''"
      open_disk "''6626''",
      THEN conjunct2, THEN conjunct2, THEN conjunct2, THEN conjunct2, THEN conjunct1,
      rule_format]
  have "12000 + 15000 \<le> fst (scrape_contact_info_selenium_timed 45
      (appearing_browser 12000 ?d))"
    using after by (intro a) simp_all
  moreover have "10000 + 1000 * 45 + 15000 \<le> fst (scrape_contact_info_selenium_timed 45
      (appearing_browser 0 (quiet_driver [])))"
    using never by (intro b) simp
  moreover have "fst (extract_contact_with_progress_timed open_disk ''6626''
      (appearing_page 10000 ''Contact information'')) = 5000 * 2"
    using second by (intro c) blast
  moreover have "fst (extract_contact_with_progress_timed open_disk ''6626''
      (appearing_page 0 ''loading'')) = 30000"
    using none by (intro d) blast
  ultimately show ?thesis by blast
qed

end
